theory Spec2Isabelle
  imports Complex_Main
begin

section \<open>Exceptions and outcomes\<close>

text \<open>
  The exceptions that the modelled code can raise.  \<open>UnsafeExpression\<close> is the class of
  \<^verbatim>\<open>graph_model.py\<close>; it carries its message.  The others are Python's and networkx's own.
\<close>

datatype py_error =
    SyntaxError
  | UnsafeExpression string
  | ZeroDivisionError
  | ValueError
  | TypeError
  | NameError
  | KeyError
  | NodeNotFound
  | NetworkXNoPath

text \<open>
  A call either returns a value or raises.  Floats are modelled as real numbers, without
  rounding, infinities or \<open>OverflowError\<close> (\<^verbatim>\<open>exp(1000)\<close> returns here), and only
  numbers, tuples and the whitelisted functions have their Python semantics written out below:
  where an evaluation leaves that fragment (arithmetic on a string literal or on a complex
  result, for example) the model answers \<open>Beyond\<close> and says nothing about what Python does.
\<close>

datatype 'a outcome = Returns 'a | Raises py_error | Beyond

definition bind :: "'a outcome \<Rightarrow> ('a \<Rightarrow> 'b outcome) \<Rightarrow> 'b outcome" where
  "bind r k = (case r of Returns x \<Rightarrow> k x | Raises e \<Rightarrow> Raises e | Beyond \<Rightarrow> Beyond)"

section \<open>Syntax trees of expressions\<close>

text \<open>
  The trees of Python's \<^verbatim>\<open>ast\<close> module for \<^verbatim>\<open>mode='eval'\<close>.  The node classes that the
  whitelist of \<^verbatim>\<open>compile_cost_expr\<close> names have a constructor each; a node of any other class
  is \<open>Other\<close> with its class name and its child nodes (\<open>Attribute\<close>, \<open>Lambda\<close>, \<open>Compare\<close>,
  \<open>keyword\<close>, ...), and likewise for operators and contexts.
\<close>

datatype expr_context = Load | OtherContext string

datatype operator = Add | Sub | Mult | Div | Mod | Pow_op | OtherOperator string

datatype unaryop = UAdd | USub | OtherUnaryop string

datatype py_constant =
    CInt int
  | CFloat real
  | CBool bool
  | CStr string
  | CNone
  | COther string

datatype ast =
    Expression ast
  | Constant py_constant
  | Name string expr_context
  | BinOp ast operator ast
  | UnaryOp unaryop ast
  | Call ast "ast list" "ast list"
  | Tuple "ast list" expr_context
  | Other string "ast list"

text \<open>What \<^verbatim>\<open>ast.walk\<close> yields: trees, and the operator and context objects inside them.\<close>

datatype node = Tree ast | Operator operator | Unaryop unaryop | Context expr_context

fun class_name :: "node \<Rightarrow> string" where
  "class_name (Tree (Expression _)) = ''Expression''"
| "class_name (Tree (Constant _)) = ''Constant''"
| "class_name (Tree (Name _ _)) = ''Name''"
| "class_name (Tree (BinOp _ _ _)) = ''BinOp''"
| "class_name (Tree (UnaryOp _ _)) = ''UnaryOp''"
| "class_name (Tree (Call _ _ _)) = ''Call''"
| "class_name (Tree (Tuple _ _)) = ''Tuple''"
| "class_name (Tree (Other c _)) = c"
| "class_name (Operator Add) = ''Add''"
| "class_name (Operator Sub) = ''Sub''"
| "class_name (Operator Mult) = ''Mult''"
| "class_name (Operator Div) = ''Div''"
| "class_name (Operator Mod) = ''Mod''"
| "class_name (Operator Pow_op) = ''Pow''"
| "class_name (Operator (OtherOperator c)) = c"
| "class_name (Unaryop UAdd) = ''UAdd''"
| "class_name (Unaryop USub) = ''USub''"
| "class_name (Unaryop (OtherUnaryop c)) = c"
| "class_name (Context Load) = ''Load''"
| "class_name (Context (OtherContext c)) = c"

text \<open>\<^verbatim>\<open>ast.iter_child_nodes\<close>: the fields that are nodes, in field order.\<close>

fun iter_child_nodes :: "node \<Rightarrow> node list" where
  "iter_child_nodes (Tree (Expression b)) = [Tree b]"
| "iter_child_nodes (Tree (Constant _)) = []"
| "iter_child_nodes (Tree (Name _ c)) = [Context c]"
| "iter_child_nodes (Tree (BinOp l op r)) = [Tree l, Operator op, Tree r]"
| "iter_child_nodes (Tree (UnaryOp op x)) = [Unaryop op, Tree x]"
| "iter_child_nodes (Tree (Call fn args keywords)) = Tree fn # map Tree args @ map Tree keywords"
| "iter_child_nodes (Tree (Tuple elts c)) = map Tree elts @ [Context c]"
| "iter_child_nodes (Tree (Other _ children)) = map Tree children"
| "iter_child_nodes (Operator _) = []"
| "iter_child_nodes (Unaryop _) = []"
| "iter_child_nodes (Context _) = []"

fun ast_nodes :: "ast \<Rightarrow> nat" where
  "ast_nodes (Expression b) = Suc (ast_nodes b)"
| "ast_nodes (Constant _) = 1"
| "ast_nodes (Name _ _) = 2"
| "ast_nodes (BinOp l _ r) = Suc (Suc (ast_nodes l + ast_nodes r))"
| "ast_nodes (UnaryOp _ x) = Suc (Suc (ast_nodes x))"
| "ast_nodes (Call fn args keywords) =
     Suc (ast_nodes fn + sum_list (map ast_nodes args) + sum_list (map ast_nodes keywords))"
| "ast_nodes (Tuple elts _) = Suc (Suc (sum_list (map ast_nodes elts)))"
| "ast_nodes (Other _ children) = Suc (sum_list (map ast_nodes children))"

fun node_count :: "node \<Rightarrow> nat" where
  "node_count (Tree t) = ast_nodes t"
| "node_count _ = 1"

lemma child_nodes_count:
  "sum_list (map node_count (iter_child_nodes n)) < node_count n"
  by (induction n rule: iter_child_nodes.induct) (simp_all add: comp_def)

text \<open>
  \<^verbatim>\<open>ast.walk\<close>: a queue, the node at its head is yielded and its children are appended at
  the end (breadth first).
\<close>

function walk :: "node list \<Rightarrow> node list" where
  "walk [] = []"
| "walk (n # todo) = n # walk (todo @ iter_child_nodes n)"
  by pat_completeness auto
termination
proof (relation "measure (\<lambda>q. sum_list (map node_count q))")
  show "wf (measure (\<lambda>q. sum_list (map node_count q)))" by simp
next
  fix n :: node and todo :: "node list"
  show "(todo @ iter_child_nodes n, n # todo) \<in> measure (\<lambda>q. sum_list (map node_count q))"
    using child_nodes_count [of n] by simp
qed

section \<open>The expression sandbox\<close>

text \<open>
  Run-time values: numbers (Python's \<^verbatim>\<open>int\<close>, \<^verbatim>\<open>float\<close> and \<^verbatim>\<open>bool\<close>, as reals), tuples, the
  functions of \<^verbatim>\<open>SAFE_MATH\<close> by name, and any other literal as an object that the model does
  not look into.
\<close>

datatype py_value = VNum real | VTuple "py_value list" | VFunc string | VObj py_constant

text \<open>The dictionary \<^verbatim>\<open>SAFE_MATH\<close>, in its order.\<close>

definition SAFE_MATH :: "(string \<times> py_value) list" where
  "SAFE_MATH =
     [(''sqrt'', VFunc ''sqrt''), (''log'', VFunc ''log''), (''exp'', VFunc ''exp''),
      (''sin'', VFunc ''sin''), (''cos'', VFunc ''cos''), (''tan'', VFunc ''tan''),
      (''abs'', VFunc ''abs''), (''min'', VFunc ''min''), (''max'', VFunc ''max''),
      (''pi'', VNum pi), (''e'', VNum (exp 1))]"

text \<open>
  The classes of \<^verbatim>\<open>allowed_nodes\<close>.  \<^verbatim>\<open>ast.Num\<close> is a deprecated alias that the parser never
  produces: a number, like every other literal, is a \<open>Constant\<close>.
\<close>

definition allowed_nodes :: "string list" where
  "allowed_nodes = [''Expression'', ''Call'', ''Name'', ''Load'', ''BinOp'', ''UnaryOp'', ''Num'',
     ''Constant'', ''Add'', ''Sub'', ''Mult'', ''Div'', ''Pow'', ''Mod'', ''USub'', ''UAdd'',
     ''Tuple'']"

text \<open>
  \<^verbatim>\<open>str.strip()\<close>: the whitespace of \<^verbatim>\<open>str.isspace\<close> among the code points below 256, which
  are the characters of the model.
\<close>

definition is_space :: "char \<Rightarrow> bool" where
  "is_space c = (of_char c \<in> {9, 10, 11, 12, 13, 28, 29, 30, 31, 32, 133, 160 :: nat})"

definition strip :: "string \<Rightarrow> string" where
  "strip s = rev (dropWhile is_space (rev (dropWhile is_space s)))"

text \<open>The loop over \<^verbatim>\<open>ast.walk(node)\<close>: the first offending node raises.\<close>

fun check_nodes :: "node list \<Rightarrow> py_error option" where
  "check_nodes [] = None"
| "check_nodes (n # ns) =
     (if class_name n \<notin> set allowed_nodes
      then Some (UnsafeExpression (''Disallowed expression element: '' @ class_name n))
      else case n of
          Tree (Name i _) \<Rightarrow>
            if i \<noteq> ''f'' \<and> i \<notin> set (map fst SAFE_MATH)
            then Some (UnsafeExpression (''Unknown name: '' @ i))
            else check_nodes ns
        | _ \<Rightarrow> check_nodes ns)"

text \<open>
  \<^verbatim>\<open>compile_cost_expr\<close> up to the closure it returns: \<open>expr_text\<close> is the text that reaches
  the parser (\<open>None\<close> and blank text become \<^verbatim>\<open>1.0\<close>).  \<^verbatim>\<open>ast.parse(expr, mode='eval')\<close> is the
  interpreter's parser and is a parameter: it returns the tree or raises.  The compiled code
  object is represented by the tree it was compiled from: \<^verbatim>\<open>compile(node, '<string>', 'eval')\<close>
  accepts every tree that the parser returns, short of the interpreter's recursion limit on a
  tree about a thousand levels deep (\<open>RecursionError\<close>), a limit that the model does not have.
\<close>

definition expr_text :: "string option \<Rightarrow> string" where
  "expr_text expr =
     (let expr1 = (case expr of None \<Rightarrow> '''' | Some s \<Rightarrow> s);
          expr2 = strip expr1
      in if expr2 = '''' then ''1.0'' else expr2)"

definition compile_cost_expr ::
  "(string \<Rightarrow> py_error + ast) \<Rightarrow> string option \<Rightarrow> py_error + ast" where
  "compile_cost_expr parse expr =
     (case parse (expr_text expr) of
        Inl err \<Rightarrow> Inl err
      | Inr node \<Rightarrow>
          (case check_nodes (walk [Tree node]) of
             Some err \<Rightarrow> Inl err
           | None \<Rightarrow> Inr node))"

section \<open>Evaluation of compiled expressions\<close>

text \<open>
  \<^verbatim>\<open>eval(code, {'__builtins__': {}}, local_ns)\<close> on the trees of the whitelist.  Python's
  arithmetic is written out on numbers: true division and modulo raise on a zero divisor, the
  modulo takes the sign of the divisor, a zero base with a negative exponent raises, and a
  negative base with a fractional exponent gives a complex number (\<open>Beyond\<close>).
\<close>

definition py_pow :: "real \<Rightarrow> real \<Rightarrow> py_value outcome" where
  "py_pow a b =
     (if b = 0 then Returns (VNum 1)
      else if a = 0 then (if b < 0 then Raises ZeroDivisionError else Returns (VNum 0))
      else if 0 < a then Returns (VNum (a powr b))
      else if b = of_int \<lfloor>b\<rfloor> then Returns (VNum (a powi \<lfloor>b\<rfloor>))
      else Beyond)"

fun py_binop :: "operator \<Rightarrow> py_value \<Rightarrow> py_value \<Rightarrow> py_value outcome" where
  "py_binop Add (VNum a) (VNum b) = Returns (VNum (a + b))"
| "py_binop Sub (VNum a) (VNum b) = Returns (VNum (a - b))"
| "py_binop Mult (VNum a) (VNum b) = Returns (VNum (a * b))"
| "py_binop Div (VNum a) (VNum b) =
     (if b = 0 then Raises ZeroDivisionError else Returns (VNum (a / b)))"
| "py_binop Mod (VNum a) (VNum b) =
     (if b = 0 then Raises ZeroDivisionError else Returns (VNum (a - b * of_int \<lfloor>a / b\<rfloor>)))"
| "py_binop Pow_op (VNum a) (VNum b) = py_pow a b"
| "py_binop _ _ _ = Beyond"

fun py_unaryop :: "unaryop \<Rightarrow> py_value \<Rightarrow> py_value outcome" where
  "py_unaryop UAdd (VNum a) = Returns (VNum a)"
| "py_unaryop USub (VNum a) = Returns (VNum (- a))"
| "py_unaryop _ _ = Beyond"

fun nums :: "py_value list \<Rightarrow> real list option" where
  "nums [] = Some []"
| "nums (VNum a # vs) = (case nums vs of None \<Rightarrow> None | Some xs \<Rightarrow> Some (a # xs))"
| "nums (_ # vs) = None"

text \<open>\<^verbatim>\<open>min\<close> and \<open>max\<close> of Python on the arguments, or on the one iterable argument.\<close>

definition py_extremum :: "(real \<Rightarrow> real \<Rightarrow> real) \<Rightarrow> py_value list \<Rightarrow> py_value outcome" where
  "py_extremum pick args =
     (case args of
        [] \<Rightarrow> Raises TypeError
      | [VNum _] \<Rightarrow> Raises TypeError
      | [VFunc _] \<Rightarrow> Raises TypeError
      | [VObj _] \<Rightarrow> Beyond
      | [VTuple []] \<Rightarrow> Raises ValueError
      | [VTuple (v # vs)] \<Rightarrow>
          (case nums (v # vs) of
             Some (x # xs) \<Rightarrow> Returns (VNum (foldl pick x xs))
           | _ \<Rightarrow> Beyond)
      | v # w # vs \<Rightarrow>
          (case nums (v # w # vs) of
             Some (x # xs) \<Rightarrow> Returns (VNum (foldl pick x xs))
           | _ \<Rightarrow> Beyond))"

text \<open>The functions of the \<^verbatim>\<open>math\<close> module take one real number (\<open>log\<close>: one or two).\<close>

definition py_call :: "string \<Rightarrow> py_value list \<Rightarrow> py_value outcome" where
  "py_call fn args =
     (if fn = ''min'' then py_extremum min args
      else if fn = ''max'' then py_extremum max args
      else if fn = ''abs'' then
        (case args of
           [VNum x] \<Rightarrow> Returns (VNum \<bar>x\<bar>)
         | [VObj _] \<Rightarrow> Beyond
         | _ \<Rightarrow> Raises TypeError)
      else if fn = ''log'' then
        (case args of
           [VNum x] \<Rightarrow> if x \<le> 0 then Raises ValueError else Returns (VNum (ln x))
         | [VNum x, VNum b] \<Rightarrow>
             if x \<le> 0 \<or> b \<le> 0 then Raises ValueError
             else if b = 1 then Raises ZeroDivisionError
             else Returns (VNum (ln x / ln b))
         | _ \<Rightarrow> Raises TypeError)
      else
        (case args of
           [VNum x] \<Rightarrow>
             if fn = ''sqrt'' then (if x < 0 then Raises ValueError else Returns (VNum (sqrt x)))
             else if fn = ''exp'' then Returns (VNum (exp x))
             else if fn = ''sin'' then Returns (VNum (sin x))
             else if fn = ''cos'' then Returns (VNum (cos x))
             else if fn = ''tan'' then Returns (VNum (tan x))
             else Beyond
         | _ \<Rightarrow> Raises TypeError))"

fun eval_expr :: "(string \<Rightarrow> py_value option) \<Rightarrow> ast \<Rightarrow> py_value outcome"
  and eval_list :: "(string \<Rightarrow> py_value option) \<Rightarrow> ast list \<Rightarrow> py_value list outcome" where
  "eval_expr ns (Expression b) = eval_expr ns b"
| "eval_expr ns (Constant c) =
     (case c of
        CInt i \<Rightarrow> Returns (VNum (of_int i))
      | CFloat x \<Rightarrow> Returns (VNum x)
      | CBool b \<Rightarrow> Returns (VNum (if b then 1 else 0))
      | _ \<Rightarrow> Returns (VObj c))"
| "eval_expr ns (Name i _) =
     (case ns i of None \<Rightarrow> Raises NameError | Some v \<Rightarrow> Returns v)"
| "eval_expr ns (BinOp l op r) =
     bind (eval_expr ns l) (\<lambda>a. bind (eval_expr ns r) (\<lambda>b. py_binop op a b))"
| "eval_expr ns (UnaryOp op x) = bind (eval_expr ns x) (py_unaryop op)"
| "eval_expr ns (Call fn args keywords) =
     bind (eval_expr ns fn) (\<lambda>callee. bind (eval_list ns args) (\<lambda>vs.
       if keywords \<noteq> [] then Beyond
       else case callee of VFunc name \<Rightarrow> py_call name vs | _ \<Rightarrow> Raises TypeError))"
| "eval_expr ns (Tuple elts _) = bind (eval_list ns elts) (\<lambda>vs. Returns (VTuple vs))"
| "eval_expr ns (Other _ _) = Beyond"
| "eval_list ns [] = Returns []"
| "eval_list ns (x # xs) =
     bind (eval_expr ns x) (\<lambda>v. bind (eval_list ns xs) (\<lambda>vs. Returns (v # vs)))"

text \<open>\<^verbatim>\<open>float(val)\<close>.\<close>

fun py_float :: "py_value \<Rightarrow> real outcome" where
  "py_float (VNum x) = Returns x"
| "py_float (VTuple _) = Raises TypeError"
| "py_float (VFunc _) = Raises TypeError"
| "py_float (VObj _) = Beyond"

text \<open>
  The closure \<^verbatim>\<open>cost\<close> that \<^verbatim>\<open>compile_cost_expr\<close> returns, applied to its compiled code:
  \<^verbatim>\<open>local_ns\<close> binds \<open>f\<close> and is then updated with \<^verbatim>\<open>SAFE_MATH\<close>.
\<close>

definition local_ns :: "real \<Rightarrow> string \<Rightarrow> py_value option" where
  "local_ns f = [''f'' \<mapsto> VNum f] ++ map_of SAFE_MATH"

definition cost :: "ast \<Rightarrow> real \<Rightarrow> real outcome" where
  "cost code f = bind (eval_expr (local_ns f) code) py_float"

section \<open>The nodes of a tree and the whitelist\<close>

text \<open>All nodes of a tree, by recursion on the tree: what a complete traversal visits.\<close>

fun tree_nodes :: "ast \<Rightarrow> node set" where
  "tree_nodes (Expression b) = insert (Tree (Expression b)) (tree_nodes b)"
| "tree_nodes (Constant c) = {Tree (Constant c)}"
| "tree_nodes (Name i c) = {Tree (Name i c), Context c}"
| "tree_nodes (BinOp l op r) =
     {Tree (BinOp l op r), Operator op} \<union> tree_nodes l \<union> tree_nodes r"
| "tree_nodes (UnaryOp op x) = {Tree (UnaryOp op x), Unaryop op} \<union> tree_nodes x"
| "tree_nodes (Call fn args keywords) =
     insert (Tree (Call fn args keywords))
       (tree_nodes fn \<union> (\<Union>a \<in> set args. tree_nodes a) \<union> (\<Union>k \<in> set keywords. tree_nodes k))"
| "tree_nodes (Tuple elts c) =
     {Tree (Tuple elts c), Context c} \<union> (\<Union>x \<in> set elts. tree_nodes x)"
| "tree_nodes (Other cls children) =
     insert (Tree (Other cls children)) (\<Union>x \<in> set children. tree_nodes x)"

fun all_nodes :: "node \<Rightarrow> node set" where
  "all_nodes (Tree t) = tree_nodes t"
| "all_nodes n = {n}"

text \<open>The body of the whitelist loop at one node: the error it raises there, if any.\<close>

definition offending :: "node \<Rightarrow> py_error option" where
  "offending n =
     (if class_name n \<notin> set allowed_nodes
      then Some (UnsafeExpression (''Disallowed expression element: '' @ class_name n))
      else case n of
          Tree (Name i _) \<Rightarrow>
            if i \<noteq> ''f'' \<and> i \<notin> set (map fst SAFE_MATH)
            then Some (UnsafeExpression (''Unknown name: '' @ i)) else None
        | _ \<Rightarrow> None)"

lemma all_nodes_unfold:
  "all_nodes n = insert n (\<Union>c \<in> set (iter_child_nodes n). all_nodes c)"
  by (induction n rule: iter_child_nodes.induct) auto

lemma set_walk: "set (walk q) = (\<Union>n \<in> set q. all_nodes n)"
proof (induction q rule: walk.induct)
  case 1
  show ?case by simp
next
  case (2 n todo)
  have a: "all_nodes n = insert n (\<Union>c \<in> set (iter_child_nodes n). all_nodes c)"
    by (rule all_nodes_unfold)
  have "set (walk (n # todo)) = insert n (set (walk (todo @ iter_child_nodes n)))"
    by simp
  also have "\<dots> = insert n ((\<Union>m \<in> set todo. all_nodes m) \<union> (\<Union>c \<in> set (iter_child_nodes n). all_nodes c))"
    by (simp only: 2 set_append UN_Un)
  also have "\<dots> = (\<Union>m \<in> set todo. all_nodes m) \<union> all_nodes n"
    by (subst a) blast
  also have "\<dots> = (\<Union>m \<in> set (n # todo). all_nodes m)"
    by (simp add: Un_commute)
  finally show ?case .
qed

lemma check_nodes_Cons:
  "check_nodes (n # ns) = (case offending n of Some e \<Rightarrow> Some e | None \<Rightarrow> check_nodes ns)"
proof (cases n)
  case (Tree t)
  then show ?thesis by (cases t) (simp_all add: offending_def)
qed (simp_all add: offending_def)

lemma check_nodes_None: "check_nodes ns = None \<longleftrightarrow> (\<forall>n \<in> set ns. offending n = None)"
proof (induction ns)
  case Nil
  show ?case by simp
next
  case (Cons n ns)
  show ?case unfolding check_nodes_Cons using Cons by (cases "offending n") simp_all
qed

lemma check_nodes_Some:
  "check_nodes ns = Some e \<Longrightarrow> \<exists>n \<in> set ns. offending n = Some e"
proof (induction ns)
  case Nil
  then show ?case by simp
next
  case (Cons n ns)
  show ?case
  proof (cases "offending n")
    case None
    with Cons.prems have "check_nodes ns = Some e" by (simp only: check_nodes_Cons option.case)
    with Cons.IH show ?thesis by auto
  next
    case (Some e')
    with Cons.prems have "e' = e" by (simp only: check_nodes_Cons option.case option.inject)
    with Some show ?thesis by simp
  qed
qed

section \<open>What evaluation can raise\<close>

text \<open>An outcome that is neither an \<open>UnsafeExpression\<close> nor a \<open>NameError\<close>.\<close>

definition builtin_only :: "'a outcome \<Rightarrow> bool" where
  "builtin_only r = ((\<forall>m. r \<noteq> Raises (UnsafeExpression m)) \<and> r \<noteq> Raises NameError)"

lemma builtin_only_simps [simp]:
  "builtin_only (Returns x)" "builtin_only Beyond" "builtin_only (Raises ZeroDivisionError)"
  "builtin_only (Raises ValueError)" "builtin_only (Raises TypeError)"
  by (simp_all add: builtin_only_def)

lemma builtin_only_bind:
  "builtin_only r \<Longrightarrow> (\<And>x. r = Returns x \<Longrightarrow> builtin_only (k x)) \<Longrightarrow> builtin_only (bind r k)"
  by (cases r) (simp_all add: bind_def builtin_only_def)

lemma builtin_only_pow: "builtin_only (py_pow a b)"
  by (simp add: py_pow_def)

lemma builtin_only_binop: "builtin_only (py_binop op a b)"
  by (cases "(op, a, b)" rule: py_binop.cases) (simp_all add: builtin_only_pow)

lemma builtin_only_unaryop: "builtin_only (py_unaryop op a)"
  by (cases "(op, a)" rule: py_unaryop.cases) simp_all

lemma builtin_only_extremum: "builtin_only (py_extremum pick args)"
  by (simp add: py_extremum_def split: list.splits py_value.splits option.splits)

lemma builtin_only_call: "builtin_only (py_call fn args)"
  by (simp add: py_call_def builtin_only_extremum split: list.splits py_value.splits)

lemma builtin_only_float: "builtin_only (py_float v)"
  by (cases v) simp_all

lemma builtin_only_eval:
  "(\<And>i c. Tree (Name i c) \<in> tree_nodes t \<Longrightarrow> ns i \<noteq> None) \<Longrightarrow> builtin_only (eval_expr ns t)"
  "(\<And>i c x. x \<in> set ts \<Longrightarrow> Tree (Name i c) \<in> tree_nodes x \<Longrightarrow> ns i \<noteq> None) \<Longrightarrow> builtin_only (eval_list ns ts)"
proof (induction ns t and ns ts rule: eval_expr_eval_list.induct)
  case (1 ns b)
  then show ?case by simp
next
  case (2 ns c)
  then show ?case by (cases c) simp_all
next
  case (3 ns i uu)
  then have "ns i \<noteq> None" by simp
  then show ?case by auto
next
  case (4 ns l op r)
  show ?case
    unfolding eval_expr.simps
    by (intro builtin_only_bind 4 builtin_only_binop) (use "4.prems" in auto)
next
  case (5 ns op x)
  show ?case
    unfolding eval_expr.simps
    by (intro builtin_only_bind 5 builtin_only_unaryop) (use "5.prems" in auto)
next
  case (6 ns fn args kws)
  have a: "builtin_only (eval_expr ns fn)" by (rule 6) (use "6.prems" in auto)
  have b: "builtin_only (eval_list ns args)" by (rule 6) (use "6.prems" in auto)
  show ?case
    unfolding eval_expr.simps
    by (intro builtin_only_bind a b) (auto simp: builtin_only_call split: py_value.splits)
next
  case (7 ns elts uv)
  have b: "builtin_only (eval_list ns elts)" by (rule 7) (use "7.prems" in auto)
  show ?case unfolding eval_expr.simps by (intro builtin_only_bind b) simp
next
  case (8 ns uw ux)
  then show ?case by simp
next
  case (9 ns)
  then show ?case by simp
next
  case (10 ns x xs)
  have a: "builtin_only (eval_expr ns x)" by (rule 10) (use "10.prems" in auto)
  have b: "builtin_only (eval_list ns xs)" by (rule 10) (use "10.prems" in auto)
  show ?case unfolding eval_list.simps by (intro builtin_only_bind a b) simp
qed

section \<open>The parser on the example strings\<close>

text \<open>
  What \<^verbatim>\<open>ast.parse(s, mode='eval')\<close> of CPython answers on the expression strings of the
  examples: the tree it returns, or the \<open>SyntaxError\<close> it raises on a statement.  The table
  stands for the parser at these strings only; its last line is not a statement about any other
  string.
\<close>

definition parse_examples :: "string \<Rightarrow> py_error + ast" where
  "parse_examples s =
     (if s = ''1 + 0.1*f'' then
        Inr (Expression (BinOp (Constant (CInt 1)) Add
               (BinOp (Constant (CFloat (1 / 10))) Mult (Name ''f'' Load))))
      else if s = ''__import__('os')'' then
        Inr (Expression (Call (Name ''__import__'' Load) [Constant (CStr ''os'')] []))
      else if s = ''f.__class__'' then
        Inr (Expression (Other ''Attribute'' [Name ''f'' Load, Other ''Load'' []]))
      else if s = ''open('x')'' then
        Inr (Expression (Call (Name ''open'' Load) [Constant (CStr ''x'')] []))
      else if s = ''1.0'' then Inr (Expression (Constant (CFloat 1)))
      else if s = ''5'' then Inr (Expression (Constant (CInt 5)))
      else if s = ''1/f'' then
        Inr (Expression (BinOp (Constant (CInt 1)) Div (Name ''f'' Load)))
      else if s = [CHR 0x27, CHR ''x'', CHR 0x27] then Inr (Expression (Constant (CStr ''x'')))
      else if s = ''x = 1'' then Inl SyntaxError
      else if s = ''import os'' then Inl SyntaxError
      else Inl SyntaxError)"


section \<open>Properties of the sandbox\<close>

declare walk.simps [simp del] check_nodes.simps [simp del]

lemma walk_tree: "set (walk [Tree t]) = tree_nodes t"
  by (simp add: set_walk)


lemma expr_text_simps:
  "expr_text (Some '''') = ''1.0''" "expr_text (Some ''1.0'') = ''1.0''"
  "expr_text (Some ''1 + 0.1*f'') = ''1 + 0.1*f''"
  "expr_text (Some ''__import__('os')'') = ''__import__('os')''"
  "expr_text (Some ''f.__class__'') = ''f.__class__''"
  "expr_text (Some ''open('x')'') = ''open('x')''"
  "expr_text (Some ''1/f'') = ''1/f''"
  "expr_text (Some ''5'') = ''5''"
  "expr_text (Some ''x = 1'') = ''x = 1''"
  "expr_text (Some ''import os'') = ''import os''"
  "expr_text (Some [CHR 0x27, CHR ''x'', CHR 0x27]) = [CHR 0x27, CHR ''x'', CHR 0x27]"
  by (simp_all add: expr_text_def strip_def is_space_def)

lemma compile_accepts_iff:
  "(\<exists>c. compile_cost_expr parse expr = Inr c) \<longleftrightarrow>
   (\<exists>t. parse (expr_text expr) = Inr t \<and> (\<forall>n \<in> tree_nodes t. offending n = None))"
proof (cases "parse (expr_text expr)")
  case (Inl e)
  then show ?thesis by (simp add: compile_cost_expr_def)
next
  case (Inr t)
  show ?thesis
  proof (cases "check_nodes (walk [Tree t])")
    case None
    with Inr show ?thesis
      using check_nodes_None [of "walk [Tree t]"] by (simp add: compile_cost_expr_def walk_tree)
  next
    case (Some e)
    with Inr show ?thesis
      using check_nodes_None [of "walk [Tree t]"] by (simp add: compile_cost_expr_def walk_tree)
  qed
qed


lemma parse_examples_simps:
  "parse_examples ''1 + 0.1*f'' =
     Inr (Expression (BinOp (Constant (CInt 1)) Add
            (BinOp (Constant (CFloat (1 / 10))) Mult (Name ''f'' Load))))"
  "parse_examples ''__import__('os')'' =
     Inr (Expression (Call (Name ''__import__'' Load) [Constant (CStr ''os'')] []))"
  "parse_examples ''f.__class__'' =
     Inr (Expression (Other ''Attribute'' [Name ''f'' Load, Other ''Load'' []]))"
  "parse_examples ''open('x')'' =
     Inr (Expression (Call (Name ''open'' Load) [Constant (CStr ''x'')] []))"
  "parse_examples ''1.0'' = Inr (Expression (Constant (CFloat 1)))"
  "parse_examples ''1/f'' = Inr (Expression (BinOp (Constant (CInt 1)) Div (Name ''f'' Load)))"
  "parse_examples [CHR 0x27, CHR ''x'', CHR 0x27] = Inr (Expression (Constant (CStr ''x'')))"
  "parse_examples ''x = 1'' = Inl SyntaxError"
  "parse_examples ''import os'' = Inl SyntaxError"
  "parse_examples ''5'' = Inr (Expression (Constant (CInt 5)))"
  by (simp_all add: parse_examples_def)

lemmas sandbox_eval =
  compile_cost_expr_def walk.simps check_nodes.simps allowed_nodes_def SAFE_MATH_def


text \<open>
  What the whitelist loop does reject.  When the parser returns a tree and the tree has a node
  whose class is outside \<^verbatim>\<open>allowed_nodes\<close>, or a \<open>Name\<close> other than \<open>f\<close> and the keys of
  \<^verbatim>\<open>SAFE_MATH\<close>, then \<^verbatim>\<open>compile_cost_expr\<close> raises \<open>UnsafeExpression\<close>, and its message is
  \<^verbatim>\<open>Disallowed expression element: \<close> followed by the class of a disallowed node of that tree, or
  \<^verbatim>\<open>Unknown name: \<close> followed by an unknown name of that tree.
\<close>

lemma compile_rejects_disallowed:
  assumes "parse (expr_text expr) = Inr t"
    and "n \<in> tree_nodes t"
    and "class_name n \<notin> set allowed_nodes
         \<or> (\<exists>i c. n = Tree (Name i c) \<and> i \<noteq> ''f'' \<and> i \<notin> set (map fst SAFE_MATH))"
  shows "(\<exists>n' \<in> tree_nodes t. class_name n' \<notin> set allowed_nodes \<and>
            compile_cost_expr parse expr =
              Inl (UnsafeExpression (''Disallowed expression element: '' @ class_name n')))
       \<or> (\<exists>i c. Tree (Name i c) \<in> tree_nodes t \<and> i \<noteq> ''f'' \<and> i \<notin> set (map fst SAFE_MATH) \<and>
            compile_cost_expr parse expr = Inl (UnsafeExpression (''Unknown name: '' @ i)))"
proof -
  note nodes = walk_tree [of t]
  from assms(3) have "offending n \<noteq> None"
    by (auto simp: offending_def)
  with assms(2) nodes have "check_nodes (walk [Tree t]) \<noteq> None"
    by (auto simp: check_nodes_None)
  then obtain e where e: "check_nodes (walk [Tree t]) = Some e"
    by auto
  then obtain n' where n': "n' \<in> tree_nodes t" "offending n' = Some e"
    using check_nodes_Some nodes by blast
  from e assms(1) have c: "compile_cost_expr parse expr = Inl e"
    by (simp add: compile_cost_expr_def)
  show ?thesis
  proof (cases "class_name n' \<in> set allowed_nodes")
    case False
    with n'(2) have "e = UnsafeExpression (''Disallowed expression element: '' @ class_name n')"
      by (simp add: offending_def)
    with False n'(1) c show ?thesis by blast
  next
    case True
    with n'(2) obtain i c' where "n' = Tree (Name i c')" "i \<noteq> ''f''"
      "i \<notin> set (map fst SAFE_MATH)" "e = UnsafeExpression (''Unknown name: '' @ i)"
      by (auto simp: offending_def split: node.splits ast.splits if_splits)
    with n'(1) c show ?thesis by blast
  qed
qed


lemma compile_rejects_disallowed_example:
  "parse_examples (expr_text (Some ''f.__class__'')) =
     Inr (Expression (Other ''Attribute'' [Name ''f'' Load, Other ''Load'' []]))
   \<and> Tree (Other ''Attribute'' [Name ''f'' Load, Other ''Load'' []])
       \<in> tree_nodes (Expression (Other ''Attribute'' [Name ''f'' Load, Other ''Load'' []]))
   \<and> class_name (Tree (Other ''Attribute'' [Name ''f'' Load, Other ''Load'' []]))
       \<notin> set allowed_nodes
   \<and> (\<exists>m. compile_cost_expr parse_examples (Some ''f.__class__'') = Inl (UnsafeExpression m))"
proof -
  let ?t = "Expression (Other ''Attribute'' [Name ''f'' Load, Other ''Load'' []])"
  let ?n = "Tree (Other ''Attribute'' [Name ''f'' Load, Other ''Load'' []])"
  have h1: "parse_examples (expr_text (Some ''f.__class__'')) = Inr ?t"
    by (simp add: expr_text_simps parse_examples_simps)
  have h2: "?n \<in> tree_nodes ?t" by simp
  have h3: "class_name ?n \<notin> set allowed_nodes
      \<or> (\<exists>i c. ?n = Tree (Name i c) \<and> i \<noteq> ''f'' \<and> i \<notin> set (map fst SAFE_MATH))"
    by (simp add: allowed_nodes_def)
  have h3': "class_name ?n \<notin> set allowed_nodes"
    by (simp add: allowed_nodes_def)
  from h1 h2 h3 compile_rejects_disallowed [of parse_examples "Some ''f.__class__''" ?t ?n]
  have "\<exists>m. compile_cost_expr parse_examples (Some ''f.__class__'') = Inl (UnsafeExpression m)"
    by blast
  with h1 h2 h3' show ?thesis by blast
qed


text \<open>
  Claim C1: every expression string with a construct outside the allowed set, assignment and
  string literals among them, makes \<^verbatim>\<open>compile_cost_expr\<close> fail with \<open>UnsafeExpression\<close>.  The
  code misses this at two inputs.  The assignment \<^verbatim>\<open>x = 1\<close> does not parse in \<^verbatim>\<open>eval\<close> mode and
  the parser's \<open>SyntaxError\<close> leaves the function, where the callers and the docstring of
  \<open>UnsafeExpression\<close> expect \<open>UnsafeExpression\<close>; the string literal \<^verbatim>\<open>'x'\<close> is a \<open>Constant\<close>,
  which the whitelist lists next to \<^verbatim>\<open>ast.Num\<close>, and it compiles.
\<close>

theorem compile_cost_expr_misses_rejections:
  "compile_cost_expr parse_examples (Some ''x = 1'') = Inl SyntaxError
   \<and> compile_cost_expr parse_examples (Some [CHR 0x27, CHR ''x'', CHR 0x27]) =
       Inr (Expression (Constant (CStr ''x'')))"
  by (simp add: sandbox_eval expr_text_simps parse_examples_simps)


text \<open>
  Claim C2.  For a parser that returns CPython's trees on the five strings:
  \<^verbatim>\<open>1 + 0.1*f\<close> compiles and costs \<open>1.1\<close> at \<open>f = 1\<close>; \<^verbatim>\<open>__import__('os')\<close>, \<^verbatim>\<open>f.__class__\<close> and
  \<^verbatim>\<open>open('x')\<close> raise \<open>UnsafeExpression\<close>; the empty string compiles to what \<^verbatim>\<open>1.0\<close> compiles to,
  a function that returns \<open>1\<close> at every flow.
\<close>

theorem sandbox_examples:
  assumes "parse ''1 + 0.1*f'' =
      Inr (Expression (BinOp (Constant (CInt 1)) Add
             (BinOp (Constant (CFloat (1 / 10))) Mult (Name ''f'' Load))))"
    and "parse ''__import__('os')'' =
      Inr (Expression (Call (Name ''__import__'' Load) [Constant (CStr ''os'')] []))"
    and "parse ''f.__class__'' =
      Inr (Expression (Other ''Attribute'' [Name ''f'' Load, Other ''Load'' []]))"
    and "parse ''open('x')'' =
      Inr (Expression (Call (Name ''open'' Load) [Constant (CStr ''x'')] []))"
    and "parse ''1.0'' = Inr (Expression (Constant (CFloat 1)))"
  shows "(\<exists>c. compile_cost_expr parse (Some ''1 + 0.1*f'') = Inr c \<and> cost c 1 = Returns (11 / 10))
    \<and> compile_cost_expr parse (Some ''__import__('os')'') =
        Inl (UnsafeExpression ''Unknown name: __import__'')
    \<and> compile_cost_expr parse (Some ''f.__class__'') =
        Inl (UnsafeExpression ''Disallowed expression element: Attribute'')
    \<and> compile_cost_expr parse (Some ''open('x')'') = Inl (UnsafeExpression ''Unknown name: open'')
    \<and> compile_cost_expr parse (Some '''') = compile_cost_expr parse (Some ''1.0'')
    \<and> (\<exists>c. compile_cost_expr parse (Some '''') = Inr c \<and> (\<forall>f. cost c f = Returns 1))"
proof -
  have 1: "\<exists>c. compile_cost_expr parse (Some ''1 + 0.1*f'') = Inr c \<and> cost c 1 = Returns (11 / 10)"
    by (simp add: sandbox_eval expr_text_simps assms(1) cost_def local_ns_def bind_def)
  have 2: "compile_cost_expr parse (Some ''__import__('os')'') =
        Inl (UnsafeExpression ''Unknown name: __import__'')"
    by (simp add: sandbox_eval expr_text_simps assms(2))
  have 3: "compile_cost_expr parse (Some ''f.__class__'') =
        Inl (UnsafeExpression ''Disallowed expression element: Attribute'')"
    by (simp add: sandbox_eval expr_text_simps assms(3))
  have 4: "compile_cost_expr parse (Some ''open('x')'') = Inl (UnsafeExpression ''Unknown name: open'')"
    by (simp add: sandbox_eval expr_text_simps assms(4))
  have 5: "compile_cost_expr parse (Some '''') = compile_cost_expr parse (Some ''1.0'')"
    by (simp add: compile_cost_expr_def expr_text_simps)
  have 6: "\<exists>c. compile_cost_expr parse (Some '''') = Inr c \<and> (\<forall>f. cost c f = Returns 1)"
    by (simp add: sandbox_eval expr_text_simps assms(5) cost_def local_ns_def bind_def)
  from 1 2 3 4 5 6 show ?thesis by blast
qed


theorem sandbox_examples_witness:
  "parse_examples ''1 + 0.1*f'' =
      Inr (Expression (BinOp (Constant (CInt 1)) Add
             (BinOp (Constant (CFloat (1 / 10))) Mult (Name ''f'' Load))))
   \<and> parse_examples ''__import__('os')'' =
      Inr (Expression (Call (Name ''__import__'' Load) [Constant (CStr ''os'')] []))
   \<and> parse_examples ''f.__class__'' =
      Inr (Expression (Other ''Attribute'' [Name ''f'' Load, Other ''Load'' []]))
   \<and> parse_examples ''open('x')'' =
      Inr (Expression (Call (Name ''open'' Load) [Constant (CStr ''x'')] []))
   \<and> parse_examples ''1.0'' = Inr (Expression (Constant (CFloat 1)))
   \<and> (\<exists>c. compile_cost_expr parse_examples (Some ''1 + 0.1*f'') = Inr c
          \<and> cost c 1 = Returns (11 / 10))
   \<and> compile_cost_expr parse_examples (Some '''') = compile_cost_expr parse_examples (Some ''1.0'')
   \<and> (\<exists>c. compile_cost_expr parse_examples (Some '''') = Inr c \<and> (\<forall>f. cost c f = Returns 1))"
proof -
  note h = parse_examples_simps(1) parse_examples_simps(2) parse_examples_simps(3)
    parse_examples_simps(4) parse_examples_simps(5)
  from sandbox_examples [of parse_examples, OF h] show ?thesis
    using h by blast
qed

text \<open>
  Claim C3, amended.  Calling a compiled cost function never raises \<open>UnsafeExpression\<close>, and
  never a \<open>NameError\<close> either, since every name of the code is bound in \<^verbatim>\<open>local_ns\<close>.  The
  errors of Python's arithmetic and of its calls still arise when the function is called.
\<close>

theorem compiled_cost_raises_builtin_only:
  assumes "compile_cost_expr parse expr = Inr c"
  shows "cost c x \<noteq> Raises (UnsafeExpression m) \<and> cost c x \<noteq> Raises NameError"
proof -
  from assms obtain t where t: "parse (expr_text expr) = Inr t"
      "\<forall>n \<in> tree_nodes t. offending n = None"
    using compile_accepts_iff [of parse expr] by blast
  with assms have "c = t" by (auto simp: compile_cost_expr_def split: option.splits)
  have bound: "local_ns x i \<noteq> None" if "Tree (Name i k) \<in> tree_nodes c" for i k
  proof -
    from that t(2) \<open>c = t\<close> have "offending (Tree (Name i k)) = None" by blast
    then have "i = ''f'' \<or> i \<in> set (map fst SAFE_MATH)"
      by (auto simp: offending_def split: if_splits)
    then show ?thesis
      by (auto simp: local_ns_def map_add_def map_of_eq_None_iff split: option.splits)
  qed
  have "builtin_only (eval_expr (local_ns x) c)"
    by (rule builtin_only_eval) (use bound in blast)
  then have "builtin_only (cost c x)"
    unfolding cost_def by (rule builtin_only_bind) (rule builtin_only_float)
  then show ?thesis by (simp add: builtin_only_def)
qed


theorem compiled_cost_raises_builtin_only_witness:
  "compile_cost_expr parse_examples (Some ''1/f'') =
     Inr (Expression (BinOp (Constant (CInt 1)) Div (Name ''f'' Load)))
   \<and> (\<forall>m. cost (Expression (BinOp (Constant (CInt 1)) Div (Name ''f'' Load))) 0
          \<noteq> Raises (UnsafeExpression m))
   \<and> cost (Expression (BinOp (Constant (CInt 1)) Div (Name ''f'' Load))) 0 \<noteq> Raises NameError"
proof -
  have h: "compile_cost_expr parse_examples (Some ''1/f'') =
     Inr (Expression (BinOp (Constant (CInt 1)) Div (Name ''f'' Load)))"
    by (simp add: sandbox_eval expr_text_simps parse_examples_simps)
  show ?thesis
    using h compiled_cost_raises_builtin_only [OF h, of 0] by blast
qed

text \<open>
  As the claim is written it fails: \<^verbatim>\<open>1/f\<close> compiles, and its cost function raises
  \<open>ZeroDivisionError\<close> at flow \<open>0\<close>.
\<close>

theorem compiled_cost_raises_builtin_only_counterexample:
  "compile_cost_expr parse_examples (Some ''1/f'') =
     Inr (Expression (BinOp (Constant (CInt 1)) Div (Name ''f'' Load)))
   \<and> cost (Expression (BinOp (Constant (CInt 1)) Div (Name ''f'' Load))) 0 = Raises ZeroDivisionError"
  by (simp add: sandbox_eval expr_text_simps parse_examples_simps cost_def local_ns_def bind_def)

section \<open>The network model\<close>

text \<open>
  \<^verbatim>\<open>TrafficGraph\<close> wraps a \<^verbatim>\<open>networkx.DiGraph\<close>.  The model keeps its nodes and its edges in
  the order in which \<^verbatim>\<open>G.nodes()\<close> and \<^verbatim>\<open>G.edges()\<close> iterate; an edge carries the three
  attributes that \<^verbatim>\<open>add_edge\<close> sets.  A directed graph has at most one edge per ordered pair
  and every endpoint of an edge is a node.
\<close>

record edge_data =
  func_expr :: "string option"
  cost_func :: "real \<Rightarrow> real outcome"
  flow :: real

record TrafficGraph =
  nodes :: "int list"
  edge_list :: "((int \<times> int) \<times> edge_data) list"

definition wf_graph :: "TrafficGraph \<Rightarrow> bool" where
  "wf_graph g =
     (distinct (map fst (edge_list g)) \<and>
      (\<forall>e \<in> set (map fst (edge_list g)). fst e \<in> set (nodes g) \<and> snd e \<in> set (nodes g)))"

text \<open>\<^verbatim>\<open>G[u][v]\<close>: the attributes of the edge, a \<open>KeyError\<close> when there is none.\<close>

definition edge_attrs :: "TrafficGraph \<Rightarrow> int \<Rightarrow> int \<Rightarrow> edge_data option" where
  "edge_attrs g u v = map_of (edge_list g) (u, v)"

definition update_edge ::
  "int \<Rightarrow> int \<Rightarrow> (edge_data \<Rightarrow> edge_data) \<Rightarrow> TrafficGraph \<Rightarrow> TrafficGraph" where
  "update_edge u v h g =
     g\<lparr>edge_list := map (\<lambda>(k, a). if k = (u, v) then (k, h a) else (k, a)) (edge_list g)\<rparr>"

text \<open>
  The mutators return the graph after the call and the exception that was raised, if any.
  \<^verbatim>\<open>set_edge_expr\<close> compiles first; the two attribute writes follow.
\<close>

definition set_edge_expr ::
  "(string \<Rightarrow> py_error + ast) \<Rightarrow> TrafficGraph \<Rightarrow> int \<Rightarrow> int \<Rightarrow> string option
     \<Rightarrow> TrafficGraph \<times> py_error option" where
  "set_edge_expr parse g u v expr =
     (case compile_cost_expr parse expr of
        Inl err \<Rightarrow> (g, Some err)
      | Inr code \<Rightarrow>
          (case edge_attrs g u v of
             None \<Rightarrow> (g, Some KeyError)
           | Some _ \<Rightarrow>
               (update_edge u v (\<lambda>a. a\<lparr>cost_func := cost code\<rparr>)
                 (update_edge u v (\<lambda>a. a\<lparr>func_expr := expr\<rparr>) g), None)))"


definition get_cost :: "TrafficGraph \<Rightarrow> int \<Rightarrow> int \<Rightarrow> real option \<Rightarrow> real outcome" where
  "get_cost g u v flow_arg =
     (case edge_attrs g u v of
        None \<Rightarrow> Raises KeyError
      | Some a \<Rightarrow> cost_func a (case flow_arg of None \<Rightarrow> flow a | Some x \<Rightarrow> x))"

definition reset_flows :: "TrafficGraph \<Rightarrow> TrafficGraph" where
  "reset_flows g = g\<lparr>edge_list := map (\<lambda>(k, a). (k, a\<lparr>flow := 0\<rparr>)) (edge_list g)\<rparr>"

section \<open>Shortest paths\<close>

text \<open>
  The weighted graph \<open>H\<close> that the solver builds with \<^verbatim>\<open>H.add_edge(u, v, weight=...)\<close>: its
  edges with their weights.  Its nodes are the endpoints of its edges.
\<close>

type_synonym wgraph = "((int \<times> int) \<times> real) list"

definition wnodes :: "wgraph \<Rightarrow> int set" where
  "wnodes H = fst ` fst ` set H \<union> snd ` fst ` set H"

text \<open>\<^verbatim>\<open>zip(path[:-1], path[1:])\<close>: the consecutive pairs of a path.\<close>

definition path_edges :: "int list \<Rightarrow> (int \<times> int) list" where
  "path_edges p = zip (butlast p) (tl p)"

definition is_path :: "wgraph \<Rightarrow> int \<Rightarrow> int \<Rightarrow> int list \<Rightarrow> bool" where
  "is_path H o_node d_node p =
     (p \<noteq> [] \<and> hd p = o_node \<and> last p = d_node \<and> o_node \<in> wnodes H \<and>
      set (path_edges p) \<subseteq> fst ` set H)"

definition path_weight :: "wgraph \<Rightarrow> int list \<Rightarrow> real" where
  "path_weight H p = (\<Sum>e \<leftarrow> path_edges p. case map_of H e of None \<Rightarrow> 0 | Some w \<Rightarrow> w)"

text \<open>
  \<^verbatim>\<open>nx.shortest_path(H, o, d, weight='weight')\<close> is networkx's and is a parameter \<open>sp\<close> of the
  solver.  What its documentation promises for one query, on non-negative weights: a path of
  least total weight, without a repeated node; \<open>NodeNotFound\<close> when an endpoint is not a node
  of \<open>H\<close>, \<open>NetworkXNoPath\<close> when the target cannot be reached.
\<close>

definition shortest_path_result :: "wgraph \<Rightarrow> int \<Rightarrow> int \<Rightarrow> py_error + int list \<Rightarrow> bool" where
  "shortest_path_result H o_node d_node r =
     (case r of
        Inr p \<Rightarrow>
          is_path H o_node d_node p \<and> distinct p \<and>
          (\<forall>q. is_path H o_node d_node q \<longrightarrow> path_weight H p \<le> path_weight H q)
      | Inl err \<Rightarrow>
          (\<forall>q. \<not> is_path H o_node d_node q) \<and>
          err = (if o_node \<in> wnodes H \<and> d_node \<in> wnodes H then NetworkXNoPath
                 else NodeNotFound))"

section \<open>The solver\<close>

text \<open>Vectors are \<^verbatim>\<open>numpy\<close> arrays of floats: lists of reals, with the operations used.\<close>

definition vsub :: "real list \<Rightarrow> real list \<Rightarrow> real list" where
  "vsub y f = map2 (-) y f"

definition vadd :: "real list \<Rightarrow> real list \<Rightarrow> real list" where
  "vadd f d = map2 (+) f d"

definition smul :: "real \<Rightarrow> real list \<Rightarrow> real list" where
  "smul a d = map ((*) a) d"



text \<open>
  \<^verbatim>\<open>edge_index = {e: i for i, e in enumerate(edges)}\<close>, and its items in the order of the
  dictionary (the edges of a directed graph are distinct, so these are the edges in order).
\<close>

definition edge_index :: "(int \<times> int) list \<Rightarrow> (int \<times> int) \<Rightarrow> nat option" where
  "edge_index edges = fold (\<lambda>(i, e) m. m(e \<mapsto> i)) (zip [0..<length edges] edges) Map.empty"


text \<open>Running a call on every element in order; the first exception ends the loop.\<close>

fun traverse :: "('a \<Rightarrow> 'b outcome) \<Rightarrow> 'a list \<Rightarrow> 'b list outcome" where
  "traverse h [] = Returns []"
| "traverse h (x # xs) = bind (h x) (\<lambda>y. bind (traverse h xs) (\<lambda>ys. Returns (y # ys)))"


text \<open>
  The inner loop of \<^verbatim>\<open>aon\<close> over the edges of one path: \<^verbatim>\<open>y[edge_index[(a,b)]] += D\<close>.  A
  missing key raises inside the \<^verbatim>\<open>try\<close>; the bare \<^verbatim>\<open>except\<close> drops the exception and the
  additions made so far stay.
\<close>

fun load_path ::
  "((int \<times> int) \<Rightarrow> nat option) \<Rightarrow> real \<Rightarrow> (int \<times> int) list \<Rightarrow> real list \<Rightarrow> real list" where
  "load_path idx D [] y = y"
| "load_path idx D (e # es) y =
     (case idx e of
        None \<Rightarrow> y
      | Some i \<Rightarrow> load_path idx D es (y[i := y ! i + D]))"

text \<open>One pass of the loop over the demands: any exception of the path search is dropped.\<close>

definition aon_step ::
  "(wgraph \<Rightarrow> int \<Rightarrow> int \<Rightarrow> py_error + int list) \<Rightarrow> wgraph \<Rightarrow> (int \<times> int) list
     \<Rightarrow> (int \<times> int \<times> real) \<Rightarrow> real list \<Rightarrow> real list" where
  "aon_step sp H edges dem y =
     (case dem of (o_node, d_node, D) \<Rightarrow>
        (case sp H o_node d_node of
           Inl _ \<Rightarrow> y
         | Inr path \<Rightarrow> load_path (edge_index edges) D (path_edges path) y))"

definition aon ::
  "(wgraph \<Rightarrow> int \<Rightarrow> int \<Rightarrow> py_error + int list) \<Rightarrow> (int \<times> int) list
     \<Rightarrow> (int \<times> int \<times> real) list \<Rightarrow> real list \<Rightarrow> real list" where
  "aon sp edges demands costs =
     fold (aon_step sp (zip edges costs) edges) demands (replicate (length edges) 0)"

text \<open>The golden-section rounds: both trial points are evaluated, the left one first.\<close>

definition phi :: real where
  "phi = (sqrt 5 - 1) / 2"








text \<open>
  \<^verbatim>\<open>compute_od_travel_times\<close>.  Inside the \<^verbatim>\<open>try\<close> every exception, of the path search or of
  a cost, gives \<^verbatim>\<open>None\<close> for the pair.
\<close>

definition od_entry ::
  "(wgraph \<Rightarrow> int \<Rightarrow> int \<Rightarrow> py_error + int list) \<Rightarrow> TrafficGraph \<Rightarrow> wgraph \<Rightarrow> int \<Rightarrow> int
     \<Rightarrow> real option outcome" where
  "od_entry sp g H o_node d_node =
     (case sp H o_node d_node of
        Inl _ \<Rightarrow> Returns None
      | Inr path \<Rightarrow>
          (case traverse (\<lambda>(a, b). get_cost g a b (map_option flow (edge_attrs g a b)))
                  (path_edges path) of
             Returns cs \<Rightarrow> Returns (Some (sum_list cs))
           | Raises _ \<Rightarrow> Returns None
           | Beyond \<Rightarrow> Beyond))"

fun od_loop ::
  "(wgraph \<Rightarrow> int \<Rightarrow> int \<Rightarrow> py_error + int list) \<Rightarrow> TrafficGraph \<Rightarrow> wgraph
     \<Rightarrow> (int \<times> int \<times> real) list \<Rightarrow> ((int \<times> int) \<Rightarrow> real option option)
     \<Rightarrow> ((int \<times> int) \<Rightarrow> real option option) outcome" where
  "od_loop sp g H [] od_costs = Returns od_costs"
| "od_loop sp g H ((o_node, d_node, _) # rest) od_costs =
     bind (od_entry sp g H o_node d_node) (\<lambda>t.
       od_loop sp g H rest (od_costs((o_node, d_node) \<mapsto> t)))"

text \<open>The graph \<^verbatim>\<open>H\<close> of the report: every edge weighted by its cost at its stored flow.\<close>

definition travel_time_graph :: "TrafficGraph \<Rightarrow> wgraph outcome" where
  "travel_time_graph tgraph =
     traverse (\<lambda>((u, v), a). bind (get_cost tgraph u v (Some (flow a)))
                                (\<lambda>c. Returns ((u, v), c)))
       (edge_list tgraph)"

definition compute_od_travel_times ::
  "(wgraph \<Rightarrow> int \<Rightarrow> int \<Rightarrow> py_error + int list) \<Rightarrow> TrafficGraph \<Rightarrow> (int \<times> int \<times> real) list
     \<Rightarrow> ((int \<times> int) \<Rightarrow> real option option) outcome" where
  "compute_od_travel_times sp tgraph demands =
     bind (travel_time_graph tgraph) (\<lambda>H. od_loop sp tgraph H demands Map.empty)"

text \<open>
  The load that one demand puts on an edge: its quantity when the edge lies on the path that
  the search returns for it.  \<open>sp_contract\<close>: on non-negative weights, the search meets its
  documentation on every origin and destination of the demands.
\<close>

definition path_load ::
  "(wgraph \<Rightarrow> int \<Rightarrow> int \<Rightarrow> py_error + int list) \<Rightarrow> wgraph \<Rightarrow> (int \<times> int)
     \<Rightarrow> (int \<times> int \<times> real) \<Rightarrow> real" where
  "path_load sp H e dem =
     (case dem of (o_node, d_node, q) \<Rightarrow>
        (case sp H o_node d_node of
           Inl _ \<Rightarrow> 0
         | Inr p \<Rightarrow> if e \<in> set (path_edges p) then q else 0))"

definition sp_contract ::
  "(wgraph \<Rightarrow> int \<Rightarrow> int \<Rightarrow> py_error + int list) \<Rightarrow> wgraph \<Rightarrow> (int \<times> int \<times> real) list \<Rightarrow> bool" where
  "sp_contract sp H demands =
     ((\<forall>w \<in> snd ` set H. 0 \<le> w) \<longrightarrow>
      (\<forall>(o_node, d_node, q) \<in> set demands.
         shortest_path_result H o_node d_node (sp H o_node d_node)))"

text \<open>The graph whose edges carry the components of a vector as their flows.\<close>

definition with_flows :: "TrafficGraph \<Rightarrow> real list \<Rightarrow> TrafficGraph" where
  "with_flows g f = g\<lparr>edge_list := map2 (\<lambda>(k, a) x. (k, a\<lparr>flow := x\<rparr>)) (edge_list g) f\<rparr>"

section \<open>An example network\<close>

text \<open>
  Two nodes and the edge \<open>1 \<rightarrow> 2\<close> with the cost expression \<^verbatim>\<open>5\<close>, as \<^verbatim>\<open>add_edge(1, 2, "5")\<close>
  followed by \<^verbatim>\<open>set_flow(1, 2, 7)\<close> leaves it.
\<close>

definition one_edge_graph :: TrafficGraph where
  "one_edge_graph =
     \<lparr>nodes = [1, 2],
      edge_list = [((1, 2), \<lparr>func_expr = Some ''5'',
                             cost_func = cost (Expression (Constant (CInt 5))),
                             flow = 7\<rparr>)]\<rparr>"



text \<open>
  The answers of the path search on graphs whose only paths are single nodes and single edges,
  such as the one-edge graph: the stand-in for \<^verbatim>\<open>nx.shortest_path\<close> in the examples.
\<close>

definition direct_sp :: "wgraph \<Rightarrow> int \<Rightarrow> int \<Rightarrow> py_error + int list" where
  "direct_sp H o_node d_node =
     (if o_node \<notin> wnodes H \<or> d_node \<notin> wnodes H then Inl NodeNotFound
      else if o_node = d_node then Inr [o_node]
      else if (o_node, d_node) \<in> fst ` set H then Inr [o_node, d_node]
      else Inl NetworkXNoPath)"

section \<open>Properties of the network model\<close>

lemma map_of_update:
  "map_of (map (\<lambda>(k, a). if k = key then (k, h a) else (k, a)) xs) k' =
     (if k' = key then map_option h (map_of xs k') else map_of xs k')"
  by (induction xs) auto

lemma map_fst_update:
  "map fst (map (\<lambda>(k, a). if k = key then (k, h a) else (k, a)) xs) = map fst xs"
  by (induction xs) auto

lemma edge_attrs_update_edge:
  "edge_attrs (update_edge u v h g) u' v' =
     (if (u', v') = (u, v) then map_option h (edge_attrs g u v) else edge_attrs g u' v')"
  by (simp add: edge_attrs_def update_edge_def map_of_update)

lemma edges_update_edge [simp]:
  "map fst (edge_list (update_edge u v h g)) = map fst (edge_list g)"
  "nodes (update_edge u v h g) = nodes g"
  by (simp_all add: update_edge_def map_fst_update del: map_map)


text \<open>
  \<^verbatim>\<open>set_edge_expr\<close> is atomic.  When the expression does not compile, the call raises the error
  of the compilation and the graph is unchanged; when it compiles, the edge gets the new text
  and the new cost function, its flow is kept, and nodes, edge order and every other edge are
  unchanged.
\<close>

lemma set_edge_expr_atomic:
  "(compile_cost_expr parse expr = Inl err \<longrightarrow>
      set_edge_expr parse g u v expr = (g, Some err))
   \<and> (compile_cost_expr parse expr = Inr code \<longrightarrow> edge_attrs g u v = Some a \<longrightarrow>
        (\<exists>g'. set_edge_expr parse g u v expr = (g', None)
           \<and> nodes g' = nodes g
           \<and> map fst (edge_list g') = map fst (edge_list g)
           \<and> edge_attrs g' u v = Some (a\<lparr>func_expr := expr, cost_func := cost code\<rparr>)
           \<and> map_option flow (edge_attrs g' u v) = Some (flow a)
           \<and> (\<forall>u' v'. (u', v') \<noteq> (u, v) \<longrightarrow> edge_attrs g' u' v' = edge_attrs g u' v')))"
  by (simp add: set_edge_expr_def edge_attrs_update_edge)

lemma set_edge_expr_atomic_example:
  "compile_cost_expr parse_examples (Some ''f.__class__'') =
     Inl (UnsafeExpression ''Disallowed expression element: Attribute'')
   \<and> set_edge_expr parse_examples one_edge_graph 1 2 (Some ''f.__class__'') =
       (one_edge_graph, Some (UnsafeExpression ''Disallowed expression element: Attribute''))
   \<and> compile_cost_expr parse_examples (Some ''1/f'') =
       Inr (Expression (BinOp (Constant (CInt 1)) Div (Name ''f'' Load)))
   \<and> edge_attrs one_edge_graph 1 2 =
       Some \<lparr>func_expr = Some ''5'', cost_func = cost (Expression (Constant (CInt 5))), flow = 7\<rparr>
   \<and> (\<exists>g'. set_edge_expr parse_examples one_edge_graph 1 2 (Some ''1/f'') = (g', None)
          \<and> map_option func_expr (edge_attrs g' 1 2) = Some (Some ''1/f'')
          \<and> map_option flow (edge_attrs g' 1 2) = Some 7)"
proof -
  let ?a = "\<lparr>func_expr = Some ''5'', cost_func = cost (Expression (Constant (CInt 5))),
            flow = 7\<rparr>"
  let ?t = "Expression (BinOp (Constant (CInt 1)) Div (Name ''f'' Load))"
  have h1: "compile_cost_expr parse_examples (Some ''f.__class__'') =
     Inl (UnsafeExpression ''Disallowed expression element: Attribute'')"
    by (simp add: sandbox_eval expr_text_simps parse_examples_simps)
  have h2: "compile_cost_expr parse_examples (Some ''1/f'') = Inr ?t"
    by (simp add: sandbox_eval expr_text_simps parse_examples_simps)
  have h3: "edge_attrs one_edge_graph 1 2 = Some ?a"
    by (simp add: edge_attrs_def one_edge_graph_def)
  have a: "set_edge_expr parse_examples one_edge_graph 1 2 (Some ''f.__class__'') =
       (one_edge_graph, Some (UnsafeExpression ''Disallowed expression element: Attribute''))"
    using h1 set_edge_expr_atomic [of parse_examples "Some ''f.__class__''"
        "UnsafeExpression ''Disallowed expression element: Attribute''" one_edge_graph 1 2]
    by blast
  have b: "\<exists>g'. set_edge_expr parse_examples one_edge_graph 1 2 (Some ''1/f'') = (g', None)
          \<and> map_option func_expr (edge_attrs g' 1 2) = Some (Some ''1/f'')
          \<and> map_option flow (edge_attrs g' 1 2) = Some 7"
    using h2 h3 set_edge_expr_atomic [of parse_examples "Some ''1/f''" _ one_edge_graph 1 2 ?t ?a]
    by auto
  from h1 h2 h3 a b show ?thesis by blast
qed

text \<open>
  Claim C7: when the replacement expression fails to compile, \<^verbatim>\<open>set_edge_expr\<close> raises
  \<open>UnsafeExpression\<close> and changes nothing.  The graph is indeed unchanged, but on the text
  \<^verbatim>\<open>x = 1\<close>, which does not parse, the call raises \<open>SyntaxError\<close>: its own
  \<^verbatim>\<open>except UnsafeExpression\<close> and its callers expect \<open>UnsafeExpression\<close>.
\<close>

theorem set_edge_expr_raises_syntax_error:
  "set_edge_expr parse_examples one_edge_graph 1 2 (Some ''x = 1'') =
     (one_edge_graph, Some SyntaxError)"
  by (simp add: set_edge_expr_def compile_cost_expr_def expr_text_simps parse_examples_simps)

section \<open>Properties of the all-or-nothing assignment\<close>

lemma edge_index_snoc: "edge_index (xs @ [x]) = (edge_index xs)(x \<mapsto> length xs)"
  by (simp add: edge_index_def)

lemma edge_index_None: "e \<notin> set edges \<Longrightarrow> edge_index edges e = None"
proof (induction edges rule: rev_induct)
  case Nil
  show ?case by (simp add: edge_index_def)
next
  case (snoc x xs)
  then show ?case by (simp add: edge_index_snoc)
qed

lemma edge_index_Some: "edge_index edges e = Some i \<Longrightarrow> i < length edges \<and> edges ! i = e"
proof (induction edges rule: rev_induct)
  case Nil
  then show ?case by (simp add: edge_index_def)
next
  case (snoc x xs)
  then show ?case
    by (auto simp: edge_index_snoc nth_append split: if_splits)
qed

lemma edge_index_nth:
  "distinct edges \<Longrightarrow> i < length edges \<Longrightarrow> edge_index edges (edges ! i) = Some i"
proof (induction edges rule: rev_induct)
  case Nil
  then show ?case by simp
next
  case (snoc x xs)
  then show ?case
    by (auto simp: edge_index_snoc nth_append less_Suc_eq)
qed

lemma length_load_path [simp]: "length (load_path idx D pes y) = length y"
  by (induction pes arbitrary: y) (auto split: option.splits)

lemma load_path_nth:
  assumes "distinct edges" and "distinct pes" and "set pes \<subseteq> set edges"
    and "length y = length edges" and "i < length edges"
  shows "load_path (edge_index edges) D pes y ! i =
           y ! i + (if edges ! i \<in> set pes then D else 0)"
  using assms(2-4)
proof (induction pes arbitrary: y)
  case Nil
  show ?case by simp
next
  case (Cons e es)
  from Cons.prems(2) obtain j where j: "j < length edges" "edges ! j = e"
    by (auto simp: in_set_conv_nth)
  with assms(1) have idx: "edge_index edges e = Some j"
    using edge_index_nth by blast
  let ?y = "y[j := y ! j + D]"
  have IH: "load_path (edge_index edges) D es ?y ! i =
      ?y ! i + (if edges ! i \<in> set es then D else 0)"
    using Cons.prems by (intro Cons.IH) auto
  show ?case
  proof (cases "i = j")
    case True
    with j Cons.prems(1) have "edges ! i \<notin> set es" by auto
    with True j idx IH Cons.prems(3) assms(5) show ?thesis by simp
  next
    case False
    with assms(1,5) j have "edges ! i \<noteq> e"
      by (auto simp: nth_eq_iff_index_eq)
    with False idx IH show ?thesis by simp
  qed
qed

lemma distinct_path_edges: "distinct p \<Longrightarrow> distinct (path_edges p)"
  unfolding path_edges_def by (intro distinct_zipI1 distinct_butlast)


lemma length_aon_step [simp]: "length (aon_step sp H edges dem y) = length y"
  by (auto simp: aon_step_def split: prod.splits sum.splits)

lemma length_fold_aon_step [simp]: "length (fold (aon_step sp H edges) ds y) = length y"
  by (induction ds arbitrary: y) auto

lemma aon_step_nth:
  assumes "distinct edges" and "length y = length edges" and "i < length edges"
    and "\<And>p. sp H (fst dem) (fst (snd dem)) = Inr p \<Longrightarrow>
           distinct p \<and> set (path_edges p) \<subseteq> set edges"
  shows "aon_step sp H edges dem y ! i = y ! i + path_load sp H (edges ! i) dem"
proof (cases dem)
  case (fields o_node d_node q)
  show ?thesis
  proof (cases "sp H o_node d_node")
    case (Inl e)
    with fields show ?thesis by (simp add: aon_step_def path_load_def)
  next
    case (Inr p)
    with assms(4) fields have "distinct p" "set (path_edges p) \<subseteq> set edges" by auto
    with assms(1-3) have "load_path (edge_index edges) q (path_edges p) y ! i =
        y ! i + (if edges ! i \<in> set (path_edges p) then q else 0)"
      by (intro load_path_nth distinct_path_edges)
    with Inr fields show ?thesis by (simp add: aon_step_def path_load_def)
  qed
qed

lemma fold_aon_step_nth:
  assumes "distinct edges" and "i < length edges"
    and "\<And>dem p. dem \<in> set ds \<Longrightarrow> sp H (fst dem) (fst (snd dem)) = Inr p \<Longrightarrow>
           distinct p \<and> set (path_edges p) \<subseteq> set edges"
    and "length y = length edges"
  shows "fold (aon_step sp H edges) ds y ! i =
           y ! i + (\<Sum>dem \<leftarrow> ds. path_load sp H (edges ! i) dem)"
  using assms(3,4)
proof (induction ds arbitrary: y)
  case Nil
  show ?case by simp
next
  case (Cons dem ds)
  have step: "aon_step sp H edges dem y ! i = y ! i + path_load sp H (edges ! i) dem"
  proof (rule aon_step_nth [OF assms(1) Cons.prems(2) assms(2)])
    fix p assume "sp H (fst dem) (fst (snd dem)) = Inr p"
    then show "distinct p \<and> set (path_edges p) \<subseteq> set edges"
      using Cons.prems(1) [of dem p] by simp
  qed
  have "fold (aon_step sp H edges) ds (aon_step sp H edges dem y) ! i =
      aon_step sp H edges dem y ! i + (\<Sum>dem \<leftarrow> ds. path_load sp H (edges ! i) dem)"
  proof (rule Cons.IH)
    fix dem' p assume "dem' \<in> set ds" "sp H (fst dem') (fst (snd dem')) = Inr p"
    then show "distinct p \<and> set (path_edges p) \<subseteq> set edges"
      using Cons.prems(1) [of dem' p] by simp
  next
    show "length (aon_step sp H edges dem y) = length edges"
      using Cons.prems(2) by simp
  qed
  with step show ?case by simp
qed

lemma is_path_edges: "is_path H o_node d_node p \<Longrightarrow> set (path_edges p) \<subseteq> fst ` set H"
  by (simp add: is_path_def)



lemma zip_keys: "length costs = length edges \<Longrightarrow> fst ` set (zip edges costs) = set edges"
proof -
  assume "length costs = length edges"
  then have "map fst (zip edges costs) = edges" by simp
  then have "set (map fst (zip edges costs)) = set edges" by simp
  then show ?thesis by (simp only: set_map)
qed

lemma zip_weights_nonneg:
  "\<forall>c \<in> set costs. (0::real) \<le> c \<Longrightarrow> \<forall>w \<in> snd ` set (zip edges costs). 0 \<le> w"
proof
  fix w assume a: "\<forall>c \<in> set costs. (0::real) \<le> c" and "w \<in> snd ` set (zip edges costs)"
  then obtain e where "(e, w) \<in> set (zip edges costs)" by force
  then have "w \<in> set costs" by (rule set_zip_rightD)
  with a show "0 \<le> w" by blast
qed

lemma sp_contractD:
  assumes "sp_contract sp H demands" and "\<forall>w \<in> snd ` set H. 0 \<le> w"
    and "(o_node, d_node, q) \<in> set demands"
  shows "shortest_path_result H o_node d_node (sp H o_node d_node)"
proof -
  from assms(1,2) have "\<forall>(o_node, d_node, q) \<in> set demands.
         shortest_path_result H o_node d_node (sp H o_node d_node)"
    unfolding sp_contract_def by (rule mp)
  with assms(3) show ?thesis by blast
qed

lemma shortest_path_result_Inr:
  "shortest_path_result H o_node d_node (Inr p) \<Longrightarrow>
     is_path H o_node d_node p \<and> distinct p \<and>
     (\<forall>q. is_path H o_node d_node q \<longrightarrow> path_weight H p \<le> path_weight H q)"
  by (simp add: shortest_path_result_def)

lemma shortest_path_result_Inl:
  "shortest_path_result H o_node d_node (Inl err) \<Longrightarrow>
     (\<forall>q. \<not> is_path H o_node d_node q) \<and>
     err = (if o_node \<in> wnodes H \<and> d_node \<in> wnodes H then NetworkXNoPath else NodeNotFound)"
  by (simp add: shortest_path_result_def)


lemma path_load_nonneg:
  "0 \<le> snd (snd dem) \<Longrightarrow> 0 \<le> path_load sp H e dem"
  by (cases dem; cases "sp H (fst dem) (fst (snd dem))") (simp_all add: path_load_def)

lemma path_load_zero:
  "(\<And>p. sp H (fst dem) (fst (snd dem)) = Inr p \<Longrightarrow> e \<notin> set (path_edges p))
     \<Longrightarrow> path_load sp H e dem = 0"
  by (cases dem; cases "sp H (fst dem) (fst (snd dem))") (simp_all add: path_load_def)


text \<open>
  Claim C6.  On non-negative costs and non-negative quantities, with a path search that meets
  its documentation: each entry of the result of \<^verbatim>\<open>aon\<close> is the sum of the quantities of the
  demands whose returned path runs over that edge, so every demand adds exactly its quantity
  to every edge of its path; every entry is non-negative; an edge on no returned path has
  exactly 0; and for a demand that has a path, the returned path is one of least total weight.
\<close>

theorem aon_loads_shortest_paths:
  assumes "distinct edges" and "length costs = length edges"
    and "\<forall>c \<in> set costs. 0 \<le> c"
    and "\<forall>(o_node, d_node, q) \<in> set demands. 0 \<le> q"
    and "sp_contract sp (zip edges costs) demands"
    and "i < length edges"
  shows "aon sp edges demands costs ! i =
           (\<Sum>dem \<leftarrow> demands. path_load sp (zip edges costs) (edges ! i) dem)
    \<and> 0 \<le> aon sp edges demands costs ! i
    \<and> ((\<forall>(o_node, d_node, q) \<in> set demands. \<forall>p. sp (zip edges costs) o_node d_node = Inr p
            \<longrightarrow> edges ! i \<notin> set (path_edges p))
         \<longrightarrow> aon sp edges demands costs ! i = 0)
    \<and> (\<forall>(o_node, d_node, q) \<in> set demands.
          (\<exists>p. is_path (zip edges costs) o_node d_node p) \<longrightarrow>
          (\<exists>p. sp (zip edges costs) o_node d_node = Inr p
             \<and> is_path (zip edges costs) o_node d_node p \<and> distinct p
             \<and> (\<forall>p'. is_path (zip edges costs) o_node d_node p'
                   \<longrightarrow> path_weight (zip edges costs) p \<le> path_weight (zip edges costs) p')))"
proof -
  let ?H = "zip edges costs"
  note keys = zip_keys [OF assms(2)]
  note wts = zip_weights_nonneg [OF assms(3), of edges]
  have ok: "shortest_path_result ?H o_node d_node (sp ?H o_node d_node)"
    if "(o_node, d_node, q) \<in> set demands" for o_node d_node q
    using assms(5) wts that by (rule sp_contractD)
  have valid: "distinct p \<and> set (path_edges p) \<subseteq> set edges"
    if "dem \<in> set demands" "sp ?H (fst dem) (fst (snd dem)) = Inr p" for dem p
  proof -
    have "(fst dem, fst (snd dem), snd (snd dem)) \<in> set demands"
      using that(1) by simp
    then have "shortest_path_result ?H (fst dem) (fst (snd dem)) (Inr p)"
      using ok that(2) by metis
    then have "is_path ?H (fst dem) (fst (snd dem)) p \<and> distinct p"
      by (simp add: shortest_path_result_Inr)
    then show ?thesis
      using is_path_edges keys by metis
  qed
  have "fold (aon_step sp ?H edges) demands (replicate (length edges) 0) ! i =
      replicate (length edges) 0 ! i + (\<Sum>dem \<leftarrow> demands. path_load sp ?H (edges ! i) dem)"
  proof (rule fold_aon_step_nth [OF assms(1) assms(6)])
    fix dem p
    assume "dem \<in> set demands" "sp ?H (fst dem) (fst (snd dem)) = Inr p"
    then show "distinct p \<and> set (path_edges p) \<subseteq> set edges" by (rule valid)
  next
    show "length (replicate (length edges) (0::real)) = length edges" by simp
  qed
  then have total: "aon sp edges demands costs ! i =
      (\<Sum>dem \<leftarrow> demands. path_load sp ?H (edges ! i) dem)"
    using assms(6) by (simp add: aon_def)
  have nonneg: "0 \<le> path_load sp ?H (edges ! i) dem" if "dem \<in> set demands" for dem
  proof (rule path_load_nonneg)
    from that assms(4) show "0 \<le> snd (snd dem)" by (cases dem) auto
  qed
  have 2: "0 \<le> aon sp edges demands costs ! i"
    unfolding total by (rule sum_list_nonneg) (use nonneg in auto)
  have 3: "aon sp edges demands costs ! i = 0"
    if h: "\<forall>(o_node, d_node, q) \<in> set demands. \<forall>p. sp ?H o_node d_node = Inr p
            \<longrightarrow> edges ! i \<notin> set (path_edges p)"
  proof -
    have "path_load sp ?H (edges ! i) dem = 0" if "dem \<in> set demands" for dem
    proof (rule path_load_zero)
      fix p assume "sp ?H (fst dem) (fst (snd dem)) = Inr p"
      with h that show "edges ! i \<notin> set (path_edges p)" by (cases dem) auto
    qed
    then have "(\<Sum>dem \<leftarrow> demands. path_load sp ?H (edges ! i) dem) = (\<Sum>dem \<leftarrow> demands. 0)"
      by (intro arg_cong [where f = sum_list] map_cong) auto
    then show ?thesis unfolding total by simp
  qed
  have 4: "\<exists>p. sp ?H o_node d_node = Inr p \<and> is_path ?H o_node d_node p \<and> distinct p
             \<and> (\<forall>p'. is_path ?H o_node d_node p' \<longrightarrow> path_weight ?H p \<le> path_weight ?H p')"
    if "(o_node, d_node, q) \<in> set demands" "\<exists>p. is_path ?H o_node d_node p"
    for o_node d_node q
  proof (cases "sp ?H o_node d_node")
    case (Inl err)
    with ok [OF that(1)] have "\<forall>q. \<not> is_path ?H o_node d_node q"
      by (simp add: shortest_path_result_Inl)
    with that(2) show ?thesis by blast
  next
    case (Inr p)
    with ok [OF that(1)] show ?thesis
      by (simp add: shortest_path_result_Inr)
  qed
  have c3: "(\<forall>(o_node, d_node, q) \<in> set demands. \<forall>p. sp ?H o_node d_node = Inr p
            \<longrightarrow> edges ! i \<notin> set (path_edges p))
         \<longrightarrow> aon sp edges demands costs ! i = 0"
    using 3 by (rule impI)
  have c4: "\<forall>(o_node, d_node, q) \<in> set demands.
          (\<exists>p. is_path ?H o_node d_node p) \<longrightarrow>
          (\<exists>p. sp ?H o_node d_node = Inr p
             \<and> is_path ?H o_node d_node p \<and> distinct p
             \<and> (\<forall>p'. is_path ?H o_node d_node p' \<longrightarrow> path_weight ?H p \<le> path_weight ?H p'))"
    using 4 by blast
  from total 2 c3 c4 show ?thesis by (intro conjI)
qed

lemma one_edge_paths:
  assumes "is_path [((1, 2), w)] 1 2 q"
  shows "q = [1, 2]"
proof (cases q)
  case Nil
  with assms show ?thesis by (simp add: is_path_def)
next
  case (Cons a r)
  show ?thesis
  proof (cases r)
    case Nil
    with Cons assms show ?thesis by (auto simp: is_path_def)
  next
    case (Cons b r')
    note r = Cons
    show ?thesis
    proof (cases r')
      case Nil
      with r \<open>q = a # r\<close> assms show ?thesis by (auto simp: is_path_def path_edges_def)
    next
      case (Cons c r'')
      with r \<open>q = a # r\<close> assms show ?thesis by (auto simp: is_path_def path_edges_def)
    qed
  qed
qed

lemma one_edge_contract:
  "sp_contract direct_sp [((1, 2), 5)] [(1, 2, 100)]"
proof -
  have "shortest_path_result [((1, 2), 5)] 1 2 (direct_sp [((1, 2), 5)] 1 2)"
    using one_edge_paths [of 5]
    by (auto simp: shortest_path_result_def direct_sp_def wnodes_def is_path_def path_edges_def)
  then show ?thesis by (simp add: sp_contract_def)
qed

theorem aon_loads_shortest_paths_witness:
  "distinct [(1, 2) :: int \<times> int] \<and> length [5 :: real] = length [(1, 2) :: int \<times> int]
   \<and> (0 :: real) \<le> 5 \<and> (0 :: real) \<le> 100
   \<and> sp_contract direct_sp (zip [(1, 2)] [5]) [(1, 2, 100)]
   \<and> (0 :: nat) < length [(1, 2) :: int \<times> int]
   \<and> aon direct_sp [(1, 2)] [(1, 2, 100)] [5] ! 0 = 100
   \<and> 0 \<le> aon direct_sp [(1, 2)] [(1, 2, 100)] [5] ! 0"
proof -
  have c: "sp_contract direct_sp (zip [(1, 2)] [5]) [(1, 2, 100)]"
    using one_edge_contract by simp
  have pl: "path_load direct_sp (zip [(1, 2)] [5]) ([(1, 2)] ! 0) (1, 2, 100) = 100"
    by (simp add: path_load_def direct_sp_def wnodes_def path_edges_def)
  from aon_loads_shortest_paths [of "[(1, 2)]" "[5]" "[(1, 2, 100)]" direct_sp 0] c
  have "aon direct_sp [(1, 2)] [(1, 2, 100)] [5] ! 0 =
          (\<Sum>dem \<leftarrow> [(1, 2, 100)]. path_load direct_sp (zip [(1, 2)] [5]) ([(1, 2)] ! 0) dem)
      \<and> 0 \<le> aon direct_sp [(1, 2)] [(1, 2, 100)] [5] ! 0"
    by simp
  with pl c show ?thesis by simp
qed

section \<open>Demands without a path\<close>

lemma bind_Returns_iff: "bind r k = Returns y \<longleftrightarrow> (\<exists>x. r = Returns x \<and> k x = Returns y)"
  by (cases r) (simp_all add: bind_def)

lemma traverse_Returns:
  "traverse h xs = Returns ys \<Longrightarrow> list_all2 (\<lambda>x y. h x = Returns y) xs ys"
proof (induction xs arbitrary: ys)
  case Nil
  then show ?case by simp
next
  case (Cons x xs)
  then show ?case by (auto simp: bind_Returns_iff)
qed

lemma traverse_not_Beyond:
  "(\<And>x. x \<in> set xs \<Longrightarrow> h x \<noteq> Beyond) \<Longrightarrow> traverse h xs \<noteq> Beyond"
proof (induction xs)
  case Nil
  show ?case by simp
next
  case (Cons x xs)
  then have a: "h x \<noteq> Beyond" and b: "traverse h xs \<noteq> Beyond" by auto
  show ?case
    using a b by (cases "h x"; cases "traverse h xs") (simp_all add: bind_def)
qed

lemma travel_time_graph_all:
  assumes "travel_time_graph g = Returns H"
  shows "list_all2 (\<lambda>x y. get_cost g (fst (fst x)) (snd (fst x)) (Some (flow (snd x))) =
            Returns (snd y) \<and> fst y = fst x) (edge_list g) H"
proof -
  let ?h = "\<lambda>((u, v), a). bind (get_cost g u v (Some (flow a))) (\<lambda>c. Returns ((u, v), c))"
  have "list_all2 (\<lambda>x y. ?h x = Returns y) (edge_list g) H"
    using assms unfolding travel_time_graph_def by (rule traverse_Returns)
  then show ?thesis
    by (rule list_all2_mono) (auto simp: bind_Returns_iff split: prod.splits)
qed

lemma travel_time_graph_costs:
  assumes "travel_time_graph g = Returns H" and "((u, v), a) \<in> set (edge_list g)"
  shows "\<exists>c. get_cost g u v (Some (flow a)) = Returns c"
proof -
  from assms(2) obtain i where i: "i < length (edge_list g)" "edge_list g ! i = ((u, v), a)"
    by (auto simp: in_set_conv_nth)
  from travel_time_graph_all [OF assms(1)] i(1)
  have "get_cost g (fst (fst (edge_list g ! i))) (snd (fst (edge_list g ! i)))
          (Some (flow (snd (edge_list g ! i)))) = Returns (snd (H ! i))"
    by (simp add: list_all2_conv_all_nth)
  with i(2) show ?thesis by simp
qed

lemma travel_time_graph_keys:
  assumes "travel_time_graph g = Returns H"
  shows "map fst H = map fst (edge_list g)"
  using travel_time_graph_all [OF assms]
  by (induction rule: list_all2_induct) auto

lemma od_entry_Returns:
  assumes "travel_time_graph g = Returns Hw"
  shows "\<exists>t. od_entry sp g H o_node d_node = Returns t"
proof (cases "sp H o_node d_node")
  case (Inl err)
  then show ?thesis by (simp add: od_entry_def)
next
  case (Inr path)
  let ?h = "\<lambda>(a, b). get_cost g a b (map_option flow (edge_attrs g a b))"
  have "?h e \<noteq> Beyond" for e
  proof (cases e)
    case (Pair a b)
    show ?thesis
    proof (cases "edge_attrs g a b")
      case None
      with Pair show ?thesis by (simp add: get_cost_def)
    next
      case (Some attr)
      then have "((a, b), attr) \<in> set (edge_list g)"
        unfolding edge_attrs_def by (rule map_of_SomeD)
      with assms obtain c where "get_cost g a b (Some (flow attr)) = Returns c"
        using travel_time_graph_costs by blast
      with Some Pair show ?thesis by simp
    qed
  qed
  then have "traverse ?h (path_edges path) \<noteq> Beyond"
    by (intro traverse_not_Beyond)
  with Inr show ?thesis
    by (cases "traverse ?h (path_edges path)") (simp_all add: od_entry_def)
qed

lemma od_entry_no_path: "sp H o_node d_node = Inl err \<Longrightarrow> od_entry sp g H o_node d_node = Returns None"
  by (simp add: od_entry_def)

lemma od_loop_no_path:
  assumes "travel_time_graph g = Returns Hw" and "sp H o_node d_node = Inl err"
  shows "\<exists>m. od_loop sp g H ds m0 = Returns m \<and>
           m (o_node, d_node) =
             (if (o_node, d_node) \<in> (\<lambda>(a, b, q). (a, b)) ` set ds then Some None
              else m0 (o_node, d_node))"
proof (induction ds arbitrary: m0)
  case Nil
  show ?case by simp
next
  case (Cons dem ds)
  obtain a b q where dem: "dem = (a, b, q)" by (cases dem)
  obtain t where t: "od_entry sp g H a b = Returns t"
    using od_entry_Returns [OF assms(1)] by blast
  have t': "t = None" if "(a, b) = (o_node, d_node)"
    using that t assms(2) od_entry_no_path [of sp H o_node d_node err g] by simp
  from Cons.IH [of "m0((a, b) \<mapsto> t)"] obtain m where
    m: "od_loop sp g H ds (m0((a, b) \<mapsto> t)) = Returns m"
       "m (o_node, d_node) =
          (if (o_node, d_node) \<in> (\<lambda>(a, b, q). (a, b)) ` set ds then Some None
           else (m0((a, b) \<mapsto> t)) (o_node, d_node))"
    by blast
  have "od_loop sp g H (dem # ds) m0 = Returns m"
    using dem t m(1) by (simp add: bind_def)
  moreover have "m (o_node, d_node) =
      (if (o_node, d_node) \<in> (\<lambda>(a, b, q). (a, b)) ` set (dem # ds) then Some None
       else m0 (o_node, d_node))"
    using m(2) dem t' by auto
  ultimately show ?case by blast
qed

lemma aon_skip:
  assumes "sp (zip edges costs) o_node d_node = Inl err"
  shows "aon sp edges (ds1 @ (o_node, d_node, q) # ds2) costs = aon sp edges (ds1 @ ds2) costs"
  using assms by (simp add: aon_def aon_step_def)

lemma path_edges_last:
  assumes "2 \<le> length p"
  shows "\<exists>x. (x, last p) \<in> set (path_edges p)"
proof -
  let ?n = "length p"
  have len: "length (path_edges p) = ?n - 1"
    by (simp add: path_edges_def)
  have "path_edges p ! (?n - 2) = (butlast p ! (?n - 2), tl p ! (?n - 2))"
    unfolding path_edges_def using assms by (intro nth_zip) auto
  moreover have "tl p ! (?n - 2) = last p"
  proof -
    have "p \<noteq> []" using assms by auto
    then have "last p = p ! (?n - 1)" by (rule last_conv_nth)
    moreover have "tl p ! (?n - 2) = p ! Suc (?n - 2)"
      using assms by (intro nth_tl) auto
    moreover have "Suc (?n - 2) = ?n - 1" using assms by simp
    ultimately show ?thesis by simp
  qed
  moreover have "path_edges p ! (?n - 2) \<in> set (path_edges p)"
    using assms len by (intro nth_mem) simp
  ultimately show ?thesis by metis
qed

lemma is_path_endpoints:
  assumes "is_path H o_node d_node p"
  shows "o_node \<in> wnodes H \<and> d_node \<in> wnodes H"
proof (cases "2 \<le> length p")
  case True
  then obtain x where "(x, last p) \<in> set (path_edges p)"
    using path_edges_last by blast
  with assms have "(x, d_node) \<in> fst ` set H"
    by (auto simp: is_path_def)
  then have "d_node \<in> wnodes H"
    by (force simp: wnodes_def)
  with assms show ?thesis by (simp add: is_path_def)
next
  case False
  moreover from assms have "p \<noteq> []" by (simp add: is_path_def)
  ultimately obtain a where "p = [a]"
    by (cases p) (auto simp: not_le less_Suc_eq)
  with assms show ?thesis by (auto simp: is_path_def)
qed

lemma missing_node_result:
  assumes "shortest_path_result H o_node d_node r"
    and "o_node \<notin> wnodes H \<or> d_node \<notin> wnodes H"
  shows "r = Inl NodeNotFound"
proof (cases r)
  case (Inl err)
  with assms show ?thesis by (auto simp: shortest_path_result_def)
next
  case (Inr p)
  with assms(1) have "is_path H o_node d_node p"
    by (simp add: shortest_path_result_def)
  with assms(2) is_path_endpoints show ?thesis by blast
qed

lemma no_path_result:
  assumes "shortest_path_result H o_node d_node r"
    and "\<not> (\<exists>p. is_path H o_node d_node p)"
  shows "\<exists>err. r = Inl err"
  using assms by (cases r) (auto simp: shortest_path_result_def)

lemma wnodes_subset:
  assumes "wf_graph g" and "map fst H = map fst (edge_list g)"
  shows "wnodes H \<subseteq> set (nodes g)"
proof -
  have "fst ` set H = set (map fst (edge_list g))"
    using assms(2) by (metis set_map)
  with assms(1) show ?thesis
    unfolding wnodes_def wf_graph_def by auto
qed

text \<open>
  Claim C8.  A demand without a path is no error.  With a path search that meets its
  documentation on it, \<^verbatim>\<open>aon\<close> gives the same vector with the demand as without it, so it adds
  zero to every component; and \<^verbatim>\<open>compute_od_travel_times\<close>, when the costs of the edges
  evaluate, returns a dictionary that maps the pair to \<^verbatim>\<open>None\<close>.
\<close>

theorem no_path_demand_is_skipped:
  "(\<not> (\<exists>p. is_path (zip edges costs) o_node d_node p)
      \<and> shortest_path_result (zip edges costs) o_node d_node (sp (zip edges costs) o_node d_node)
     \<longrightarrow> aon sp edges (ds1 @ (o_node, d_node, q) # ds2) costs = aon sp edges (ds1 @ ds2) costs)
   \<and> (travel_time_graph g = Returns H
      \<and> \<not> (\<exists>p. is_path H o_node d_node p)
      \<and> shortest_path_result H o_node d_node (sp H o_node d_node)
      \<and> (o_node, d_node, q) \<in> set demands
     \<longrightarrow> (\<exists>m. compute_od_travel_times sp g demands = Returns m \<and> m (o_node, d_node) = Some None))"
proof (intro conjI impI)
  assume "\<not> (\<exists>p. is_path (zip edges costs) o_node d_node p)
      \<and> shortest_path_result (zip edges costs) o_node d_node (sp (zip edges costs) o_node d_node)"
  then obtain err where "sp (zip edges costs) o_node d_node = Inl err"
    using no_path_result by blast
  then show "aon sp edges (ds1 @ (o_node, d_node, q) # ds2) costs = aon sp edges (ds1 @ ds2) costs"
    by (rule aon_skip)
next
  assume a: "travel_time_graph g = Returns H
      \<and> \<not> (\<exists>p. is_path H o_node d_node p)
      \<and> shortest_path_result H o_node d_node (sp H o_node d_node)
      \<and> (o_node, d_node, q) \<in> set demands"
  then obtain err where err: "sp H o_node d_node = Inl err"
    using no_path_result by blast
  from a have tg: "travel_time_graph g = Returns H" by simp
  from tg err od_loop_no_path [of g H sp H o_node d_node err demands Map.empty] obtain m where
    m: "od_loop sp g H demands Map.empty = Returns m"
       "m (o_node, d_node) =
          (if (o_node, d_node) \<in> (\<lambda>(a, b, q). (a, b)) ` set demands then Some None
           else Map.empty (o_node, d_node))"
    by blast
  from a have "(o_node, d_node) \<in> (\<lambda>(a, b, q). (a, b)) ` set demands" by force
  with m(2) have "m (o_node, d_node) = Some None" by simp
  moreover from tg m(1) have "compute_od_travel_times sp g demands = Returns m"
    by (simp add: compute_od_travel_times_def bind_def)
  ultimately show "\<exists>m. compute_od_travel_times sp g demands = Returns m
      \<and> m (o_node, d_node) = Some None" by blast
qed

lemma one_edge_no_return_path: "\<not> (\<exists>p. is_path [((1, 2), w)] 2 1 p)"
proof
  assume "\<exists>p. is_path [((1, 2), w)] 2 1 p"
  then obtain p where p: "is_path [((1, 2), w)] 2 1 p" by blast
  show False
  proof (cases p)
    case Nil
    with p show False by (simp add: is_path_def)
  next
    case (Cons a r)
    show False
    proof (cases r)
      case Nil
      with Cons p show False by (auto simp: is_path_def)
    next
      case (Cons b r')
      with \<open>p = a # r\<close> p show False by (auto simp: is_path_def path_edges_def)
    qed
  qed
qed

lemma one_edge_travel_time_graph: "travel_time_graph one_edge_graph = Returns [((1, 2), 5)]"
  by (simp add: travel_time_graph_def one_edge_graph_def get_cost_def edge_attrs_def cost_def
      local_ns_def bind_def)

theorem no_path_demand_is_skipped_witness:
  "\<not> (\<exists>p. is_path (zip [(1, 2)] [5]) 2 1 p)
   \<and> shortest_path_result (zip [(1, 2)] [5]) 2 1 (direct_sp (zip [(1, 2)] [5]) 2 1)
   \<and> aon direct_sp [(1, 2)] ([] @ (2, 1, 50) # []) [5] = aon direct_sp [(1, 2)] ([] @ []) [5]
   \<and> travel_time_graph one_edge_graph = Returns [((1, 2), 5)]
   \<and> (2, 1, 50) \<in> set [(2 :: int, 1 :: int, 50 :: real)]
   \<and> (\<exists>m. compute_od_travel_times direct_sp one_edge_graph [(2, 1, 50)] = Returns m
          \<and> m (2, 1) = Some None)"
proof -
  have np: "\<not> (\<exists>p. is_path [((1, 2), 5)] 2 1 p)"
    by (rule one_edge_no_return_path)
  have r: "shortest_path_result [((1, 2), 5)] 2 1 (direct_sp [((1, 2), 5)] 2 1)"
    using np by (simp add: shortest_path_result_def direct_sp_def wnodes_def)
  note tg = one_edge_travel_time_graph
  have mem: "(2, 1, 50) \<in> set [(2 :: int, 1 :: int, 50 :: real)]" by simp
  from no_path_demand_is_skipped [of "[(1, 2)]" "[5]" 2 1 direct_sp "[]" 50 "[]" one_edge_graph
      "[((1, 2), 5)]" "[(2, 1, 50)]"] np r tg mem
  show ?thesis by simp
qed

text \<open>
  Claim C10.  A demand whose origin or destination is no node of the graph is treated like one
  without a path: the search raises \<open>NodeNotFound\<close>, which the bare \<^verbatim>\<open>except\<close> drops, so
  \<^verbatim>\<open>aon\<close> gives the same vector with the demand as without it, and
  \<^verbatim>\<open>compute_od_travel_times\<close> maps the pair to \<^verbatim>\<open>None\<close>.
\<close>

theorem missing_node_demand_is_skipped:
  assumes "wf_graph g" and "o_node \<notin> set (nodes g) \<or> d_node \<notin> set (nodes g)"
  shows "(length costs = length (edge_list g)
      \<and> shortest_path_result (zip (map fst (edge_list g)) costs) o_node d_node
          (sp (zip (map fst (edge_list g)) costs) o_node d_node)
     \<longrightarrow> sp (zip (map fst (edge_list g)) costs) o_node d_node = Inl NodeNotFound
        \<and> aon sp (map fst (edge_list g)) (ds1 @ (o_node, d_node, q) # ds2) costs =
            aon sp (map fst (edge_list g)) (ds1 @ ds2) costs)
   \<and> (travel_time_graph g = Returns H
      \<and> shortest_path_result H o_node d_node (sp H o_node d_node)
      \<and> (o_node, d_node, q) \<in> set demands
     \<longrightarrow> sp H o_node d_node = Inl NodeNotFound
        \<and> (\<exists>m. compute_od_travel_times sp g demands = Returns m \<and> m (o_node, d_node) = Some None))"
proof (intro conjI impI)
  let ?H = "zip (map fst (edge_list g)) costs"
  assume a: "length costs = length (edge_list g)
      \<and> shortest_path_result ?H o_node d_node (sp ?H o_node d_node)"
  then have "map fst ?H = map fst (edge_list g)" by simp
  with assms(1) have "wnodes ?H \<subseteq> set (nodes g)" by (rule wnodes_subset)
  with assms(2) have "o_node \<notin> wnodes ?H \<or> d_node \<notin> wnodes ?H" by blast
  with a show 1: "sp ?H o_node d_node = Inl NodeNotFound"
    using missing_node_result by blast
  then show "aon sp (map fst (edge_list g)) (ds1 @ (o_node, d_node, q) # ds2) costs =
            aon sp (map fst (edge_list g)) (ds1 @ ds2) costs"
    by (rule aon_skip)
next
  assume a: "travel_time_graph g = Returns H
      \<and> shortest_path_result H o_node d_node (sp H o_node d_node)
      \<and> (o_node, d_node, q) \<in> set demands"
  then have tg: "travel_time_graph g = Returns H" by simp
  then have "map fst H = map fst (edge_list g)" by (rule travel_time_graph_keys)
  with assms(1) have "wnodes H \<subseteq> set (nodes g)" by (rule wnodes_subset)
  with assms(2) have "o_node \<notin> wnodes H \<or> d_node \<notin> wnodes H" by blast
  with a show err: "sp H o_node d_node = Inl NodeNotFound"
    using missing_node_result by blast
  from tg err od_loop_no_path [of g H sp H o_node d_node NodeNotFound demands Map.empty]
  obtain m where
    m: "od_loop sp g H demands Map.empty = Returns m"
       "m (o_node, d_node) =
          (if (o_node, d_node) \<in> (\<lambda>(a, b, q). (a, b)) ` set demands then Some None
           else Map.empty (o_node, d_node))"
    by blast
  from a have "(o_node, d_node) \<in> (\<lambda>(a, b, q). (a, b)) ` set demands" by force
  with m(2) have "m (o_node, d_node) = Some None" by simp
  moreover from tg m(1) have "compute_od_travel_times sp g demands = Returns m"
    by (simp add: compute_od_travel_times_def bind_def)
  ultimately show "\<exists>m. compute_od_travel_times sp g demands = Returns m
      \<and> m (o_node, d_node) = Some None" by blast
qed

theorem missing_node_demand_is_skipped_witness:
  "wf_graph one_edge_graph \<and> 9 \<notin> set (nodes one_edge_graph)
   \<and> length [5 :: real] = length (edge_list one_edge_graph)
   \<and> shortest_path_result (zip (map fst (edge_list one_edge_graph)) [5]) 1 9
        (direct_sp (zip (map fst (edge_list one_edge_graph)) [5]) 1 9)
   \<and> direct_sp (zip (map fst (edge_list one_edge_graph)) [5]) 1 9 = Inl NodeNotFound
   \<and> aon direct_sp (map fst (edge_list one_edge_graph)) ([] @ (1, 9, 50) # []) [5] =
       aon direct_sp (map fst (edge_list one_edge_graph)) ([] @ []) [5]
   \<and> travel_time_graph one_edge_graph = Returns [((1, 2), 5)]
   \<and> shortest_path_result [((1, 2), 5)] 1 9 (direct_sp [((1, 2), 5)] 1 9)
   \<and> (1, 9, 50) \<in> set [(1 :: int, 9 :: int, 50 :: real)]
   \<and> (\<exists>m. compute_od_travel_times direct_sp one_edge_graph [(1, 9, 50)] = Returns m
          \<and> m (1, 9) = Some None)"
proof -
  have wf: "wf_graph one_edge_graph"
    by (simp add: wf_graph_def one_edge_graph_def)
  have miss: "1 \<notin> set (nodes one_edge_graph) \<or> 9 \<notin> set (nodes one_edge_graph)"
    by (simp add: one_edge_graph_def)
  have edges: "map fst (edge_list one_edge_graph) = [(1, 2)]"
    by (simp add: one_edge_graph_def)
  have len: "length [5 :: real] = length (edge_list one_edge_graph)"
    by (simp add: one_edge_graph_def)
  have np: "\<not> is_path [((1, 2), 5)] 1 9 p" for p
    using is_path_endpoints [of "[((1, 2), 5)]" 1 9 p] by (auto simp: wnodes_def)
  have r: "shortest_path_result [((1, 2), 5)] 1 9 (direct_sp [((1, 2), 5)] 1 9)"
    using np by (simp add: shortest_path_result_def direct_sp_def wnodes_def)
  note tg = one_edge_travel_time_graph
  have mem: "(1, 9, 50) \<in> set [(1 :: int, 9 :: int, 50 :: real)]" by simp
  from missing_node_demand_is_skipped [OF wf miss, of "[5]" direct_sp "[]" 50 "[]"
      "[((1, 2), 5)]" "[(1, 9, 50)]"] len r tg mem edges
  show ?thesis using wf by (simp add: one_edge_graph_def)
qed

section \<open>Properties of the Frank-Wolfe run\<close>


lemma length_aon [simp]: "length (aon sp edges demands costs) = length edges"
  by (simp add: aon_def)

lemma length_vsub [simp]: "length (vsub y f) = min (length y) (length f)"
  by (simp add: vsub_def)

lemma length_vadd [simp]: "length (vadd f d) = min (length f) (length d)"
  by (simp add: vadd_def)

lemma length_smul [simp]: "length (smul a d) = length d"
  by (simp add: smul_def)





lemma length_with_flows [simp]:
  "length f = length (edge_list g) \<Longrightarrow> length (edge_list (with_flows g f)) = length (edge_list g)"
  by (simp add: with_flows_def)



lemma length_reset_flows [simp]: "length (edge_list (reset_flows g)) = length (edge_list g)"
  by (simp add: reset_flows_def)














lemma reset_flows_idem [simp]: "reset_flows (reset_flows g) = reset_flows g"
  by (simp add: reset_flows_def comp_def case_prod_unfold)







section \<open>One iteration of the solver\<close>

text \<open>
  The golden ratio of the line search lies strictly between \<open>1/2\<close> and \<open>1\<close>, so the two trial
  points of a bracket lie inside it, the left one left of the right one.
\<close>

lemma phi_bounds: "1 / 2 < phi" "phi < 1"
proof -
  have "2 < sqrt 5" by (rule real_less_rsqrt) simp
  then show "1 / 2 < phi" by (simp add: phi_def)
  have "sqrt 5 < 3" by (rule real_less_lsqrt) simp_all
  then show "phi < 1" by (simp add: phi_def)
qed

lemma phi_pos: "0 < phi"
  using phi_bounds(1) by simp














end
